theory Spec2Isabelle
  imports Complex_Main
begin

section \<open>Dial geometry of the Sectograph page (\<open>SectographApp/utils/calculate.js\<close>)\<close>

text \<open>
  The page draws mock events whose \<open>start\<close> and \<open>end\<close> are objects \<open>{h, m}\<close>; the
  fields \<open>h\<close> and \<open>m\<close> are \<open>time_h\<close> and \<open>time_m\<close> here, \<open>start\<close> and \<open>end\<close> are
  \<open>de_start\<close> and \<open>de_end\<close>. JavaScript Numbers are modelled as reals here; a Number that may be \<open>NaN\<close>
  (or a field that may be \<open>undefined\<close>, which compares like \<open>NaN\<close>) is a
  \<open>real option\<close> with \<open>None\<close> for \<open>NaN\<close>.
\<close>

record clock_time =
  time_h :: real
  time_m :: real

record dial_event =
  de_start :: clock_time
  de_end :: clock_time

record angles =
  startAngle :: "real option"
  endAngle :: "real option"

text \<open>The remainder operator \<open>%\<close>: the quotient is truncated towards zero.\<close>

definition js_rem :: "real \<Rightarrow> real \<Rightarrow> real" where
  "js_rem a b = a - b * of_int (if 0 \<le> a / b then \<lfloor>a / b\<rfloor> else \<lceil>a / b\<rceil>)"

definition convertTimeToAngle :: "clock_time \<Rightarrow> real" where
  "convertTimeToAngle time =
     (let result = (time_h time * 60 + time_m time) * 0.5
      in if result \<ge> 360 then js_rem result 360 else result)"

definition calculateAngles :: "dial_event \<Rightarrow> angles" where
  "calculateAngles event =
     (let startAngle0 = convertTimeToAngle (de_start event);
          endAngle0 = convertTimeToAngle (de_end event);
          startAngle1 = (if startAngle0 > endAngle0 then startAngle0 - 360 else startAngle0)
      in \<lparr>startAngle = Some startAngle1, endAngle = Some endAngle0\<rparr>)"

section \<open>Hit test of the event service (\<open>EventService.isThisEvent\<close>)\<close>

text \<open>Relational operators on Numbers: every comparison with \<open>NaN\<close> is false.\<close>

fun num_le :: "real option \<Rightarrow> real option \<Rightarrow> bool" where
  "num_le (Some a) (Some b) = (a \<le> b)"
| "num_le _ _ = False"

fun num_lt :: "real option \<Rightarrow> real option \<Rightarrow> bool" where
  "num_lt (Some a) (Some b) = (a < b)"
| "num_lt _ _ = False"

definition num_ge :: "real option \<Rightarrow> real option \<Rightarrow> bool" where
  "num_ge a b = num_le b a"

definition num_gt :: "real option \<Rightarrow> real option \<Rightarrow> bool" where
  "num_gt a b = num_lt b a"

text \<open>\<open>Math.atan2(y, x)\<close> on the reals (signed zeros are not distinguished).\<close>

definition atan2 :: "real \<Rightarrow> real \<Rightarrow> real" where
  "atan2 y x =
     (if 0 < x then arctan (y / x)
      else if x < 0 then (if 0 \<le> y then arctan (y / x) + pi else arctan (y / x) - pi)
      else if 0 < y then pi / 2
      else if y < 0 then - (pi / 2)
      else 0)"

definition pointAngleOf :: "real \<Rightarrow> real \<Rightarrow> real" where
  "pointAngleOf x y =
     (let pointAngle = 90 - atan2 (240 - y) (x - 240) * (180 / pi)
      in if pointAngle < 0 then 360 + pointAngle else pointAngle)"

definition isThisEvent :: "real \<Rightarrow> real \<Rightarrow> angles \<Rightarrow> bool" where
  "isThisEvent x y event =
     (let distance = sqrt ((x - 240)\<^sup>2 + (y - 240)\<^sup>2)
      in if distance > 200 then False
         else
           let pointAngle = pointAngleOf x y
           in if num_le (startAngle event) (endAngle event)
              then
                (let pointAngle' =
                       (if num_lt (startAngle event) (Some 0) \<and> pointAngle > 270
                        then pointAngle - 360 else pointAngle)
                 in num_ge (Some pointAngle') (startAngle event) \<and>
                    num_le (Some pointAngle') (endAngle event))
              else num_ge (Some pointAngle) (startAngle event) \<or>
                   num_le (Some pointAngle) (endAngle event))"

section \<open>Dates of the host platform (ECMAScript \<open>Date\<close>)\<close>

text \<open>
  The event service computes with \<open>Date\<close> objects. A time value is a number of
  milliseconds since the epoch, an \<open>int\<close>; \<open>None\<close> is \<open>NaN\<close>, the time value of an
  invalid date. The functions below follow the definitions of the ECMAScript
  specification (Day, TimeWithinDay, DayFromYear, YearFromTime, MonthFromTime, DateFromTime,
  WeekDay, MakeTime, MakeDay, MakeDate). Time values are unbounded here: the range check
  TimeClip (about the years \<open>\<plusminus>275760\<close>) is left out. Local time is UTC shifted by a
  fixed offset \<open>tza\<close> of the host (no daylight-saving transitions).
\<close>

definition msPerDay :: int where
  "msPerDay = 86400000"

definition Day :: "int \<Rightarrow> int" where
  "Day t = t div msPerDay"

definition TimeWithinDay :: "int \<Rightarrow> int" where
  "TimeWithinDay t = t mod msPerDay"

definition DaysInYear :: "int \<Rightarrow> int" where
  "DaysInYear y =
     (if y mod 4 \<noteq> 0 then 365 else if y mod 100 \<noteq> 0 then 366
      else if y mod 400 \<noteq> 0 then 365 else 366)"

definition DayFromYear :: "int \<Rightarrow> int" where
  "DayFromYear y =
     365 * (y - 1970) + (y - 1969) div 4 - (y - 1901) div 100 + (y - 1601) div 400"

text \<open>
  \<open>YearFromTime\<close> is the largest year whose first day is not after the given day. It is
  found by a search from the estimate \<open>1970 + d div 365\<close>: down while the year starts
  after day \<open>d\<close>, up while the next year starts on or before \<open>d\<close>.
\<close>

function year_search :: "int \<Rightarrow> int \<Rightarrow> int" where
  "year_search d y =
     (if d < DayFromYear y then year_search d (y - 1)
      else if DayFromYear (y + 1) \<le> d then year_search d (y + 1)
      else y)"
  by pat_completeness simp
termination
proof (relation "measure (\<lambda>(d, y). if d < DayFromYear y then nat (DayFromYear y - d)
                                     else nat (d - DayFromYear (y + 1) + 1))")
  have up: "0 < k \<Longrightarrow> a div k \<le> (a + 1) div k" for a k :: int
    by (rule zdiv_mono1) simp_all
  have down: "(a + 1) div 100 \<le> a div 100 + 1" for a :: int
  proof -
    have "(a + 1) div 100 \<le> (a + 100) div 100" by (rule zdiv_mono1) simp_all
    then show ?thesis by simp
  qed
  have mono: "DayFromYear z < DayFromYear (z + 1)" for z
  proof -
    have "DayFromYear (z + 1) =
            365 * (z - 1969) + (z - 1969 + 1) div 4 - (z - 1901 + 1) div 100 + (z - 1601 + 1) div 400"
      by (simp add: DayFromYear_def algebra_simps)
    then show ?thesis
      using up [of 4 "z - 1969"] down [of "z - 1901"] up [of 400 "z - 1601"]
      by (simp add: DayFromYear_def)
  qed
  {
    fix d y :: int
    assume "d < DayFromYear y"
    then show "((d, y - 1), (d, y)) \<in>
                 measure (\<lambda>(d, y). if d < DayFromYear y then nat (DayFromYear y - d)
                                    else nat (d - DayFromYear (y + 1) + 1))"
      using mono [of "y - 1"] by simp
  next
    fix d y :: int
    assume "\<not> d < DayFromYear y" "DayFromYear (y + 1) \<le> d"
    then show "((d, y + 1), (d, y)) \<in>
                 measure (\<lambda>(d, y). if d < DayFromYear y then nat (DayFromYear y - d)
                                    else nat (d - DayFromYear (y + 1) + 1))"
      using mono [of "y + 1"] by simp
  }
qed simp

definition YearFromDay :: "int \<Rightarrow> int" where
  "YearFromDay d = year_search d (1970 + d div 365)"

definition YearFromTime :: "int \<Rightarrow> int" where
  "YearFromTime t = YearFromDay (Day t)"

definition InLeapYear :: "int \<Rightarrow> int" where
  "InLeapYear t = (if DaysInYear (YearFromTime t) = 366 then 1 else 0)"

definition DayWithinYear :: "int \<Rightarrow> int" where
  "DayWithinYear t = Day t - DayFromYear (YearFromTime t)"

text \<open>The number of days of a year before its month \<open>m\<close> (January is 0); \<open>l\<close> is 1 in a leap year.\<close>

definition monthStart :: "int \<Rightarrow> int \<Rightarrow> int" where
  "monthStart m l =
     (if m \<le> 0 then 0 else if m = 1 then 31 else if m = 2 then 59 + l
      else if m = 3 then 90 + l else if m = 4 then 120 + l else if m = 5 then 151 + l
      else if m = 6 then 181 + l else if m = 7 then 212 + l else if m = 8 then 243 + l
      else if m = 9 then 273 + l else if m = 10 then 304 + l else if m = 11 then 334 + l
      else 365 + l)"

definition MonthFromTime :: "int \<Rightarrow> int" where
  "MonthFromTime t =
     (let d = DayWithinYear t; l = InLeapYear t
      in if d < monthStart 1 l then 0 else if d < monthStart 2 l then 1
         else if d < monthStart 3 l then 2 else if d < monthStart 4 l then 3
         else if d < monthStart 5 l then 4 else if d < monthStart 6 l then 5
         else if d < monthStart 7 l then 6 else if d < monthStart 8 l then 7
         else if d < monthStart 9 l then 8 else if d < monthStart 10 l then 9
         else if d < monthStart 11 l then 10 else 11)"

definition DateFromTime :: "int \<Rightarrow> int" where
  "DateFromTime t = DayWithinYear t - monthStart (MonthFromTime t) (InLeapYear t) + 1"

definition WeekDay :: "int \<Rightarrow> int" where
  "WeekDay t = (Day t + 4) mod 7"

definition HourFromTime :: "int \<Rightarrow> int" where
  "HourFromTime t = (t div 3600000) mod 24"

definition MinFromTime :: "int \<Rightarrow> int" where
  "MinFromTime t = (t div 60000) mod 60"

definition SecFromTime :: "int \<Rightarrow> int" where
  "SecFromTime t = (t div 1000) mod 60"

definition msFromTime :: "int \<Rightarrow> int" where
  "msFromTime t = t mod 1000"

definition MakeTime :: "int \<Rightarrow> int \<Rightarrow> int \<Rightarrow> int \<Rightarrow> int" where
  "MakeTime hour minute sec ms = hour * 3600000 + minute * 60000 + sec * 1000 + ms"

definition MakeDay :: "int \<Rightarrow> int \<Rightarrow> int \<Rightarrow> int" where
  "MakeDay year month date =
     (let ym = year + month div 12; mn = month mod 12
      in DayFromYear ym + monthStart mn (if DaysInYear ym = 366 then 1 else 0) + date - 1)"

definition MakeDate :: "int \<Rightarrow> int \<Rightarrow> int" where
  "MakeDate day time = day * msPerDay + time"

section \<open>JavaScript values and conversions used by the event service\<close>

text \<open>
  The fields of an event are JavaScript values: what \<open>JSON.parse\<close> delivered, what the
  caller passed, or what the service computed. Numbers in these fields are millisecond
  counts and are modelled as integers, with \<open>None\<close> for \<open>NaN\<close>; a \<open>Date\<close> object is
  modelled by its time value. A string is the list of its UTF-16 code units, each a
  \<open>char\<close>: the strings of the model are those whose code units are below 256 (the
  Latin-1 range, \<open>CHR 0xA0\<close> being the no-break space U+00A0); a string with a code unit
  from 256 on is not a value of the model.
\<close>

datatype jsval =
    Undefined
  | Null
  | Bool bool
  | Num "int option"
  | Str string
  | DateObj "int option"

text \<open>
  What the service takes from its platform: the local time zone adjustment \<open>tza\<close> in
  milliseconds and the text \<open>tzName\<close> that \<open>Date.prototype.toString\<close> appends after the offset
  (empty, or a name in parentheses after a space), \<open>Date.parse\<close> (implementation-defined
  outside the ISO format), and the sequence of strings that successive calls of
  \<open>#generatorId()\<close> return (a base-36 time stamp followed by random digits).
\<close>

record host =
  tza :: int
  tzName :: string
  dateParse :: "string \<Rightarrow> int option"
  generatorId :: "nat \<Rightarrow> string"

definition LocalTime :: "host \<Rightarrow> int \<Rightarrow> int" where
  "LocalTime H t = t + tza H"

definition UTC :: "host \<Rightarrow> int \<Rightarrow> int" where
  "UTC H t = t - tza H"

subsection \<open>Arithmetic and comparison of Numbers that may be \<open>NaN\<close>\<close>

definition num_add :: "'a::plus option \<Rightarrow> 'a option \<Rightarrow> 'a option" where
  "num_add a b = (case (a, b) of (Some x, Some y) \<Rightarrow> Some (x + y) | _ \<Rightarrow> None)"

definition num_sub :: "'a::minus option \<Rightarrow> 'a option \<Rightarrow> 'a option" where
  "num_sub a b = (case (a, b) of (Some x, Some y) \<Rightarrow> Some (x - y) | _ \<Rightarrow> None)"

text \<open>\<open>Math.min\<close> of two Numbers.\<close>

definition num_min :: "int option \<Rightarrow> int option \<Rightarrow> int option" where
  "num_min a b = (case (a, b) of (Some x, Some y) \<Rightarrow> Some (min x y) | _ \<Rightarrow> None)"

fun int_le :: "int option \<Rightarrow> int option \<Rightarrow> bool" where
  "int_le (Some a) (Some b) = (a \<le> b)"
| "int_le _ _ = False"

fun int_lt :: "int option \<Rightarrow> int option \<Rightarrow> bool" where
  "int_lt (Some a) (Some b) = (a < b)"
| "int_lt _ _ = False"

definition int_ge :: "int option \<Rightarrow> int option \<Rightarrow> bool" where
  "int_ge a b = int_le b a"

definition int_gt :: "int option \<Rightarrow> int option \<Rightarrow> bool" where
  "int_gt a b = int_lt b a"

subsection \<open>Strings of numbers and dates\<close>

definition digit_char :: "nat \<Rightarrow> char" where
  "digit_char n = ''0123456789'' ! (n mod 10)"

fun dec :: "nat \<Rightarrow> string" where
  "dec n = (if n < 10 then [digit_char n] else dec (n div 10) @ [digit_char (n mod 10)])"

text \<open>A decimal numeral padded with zeros to at least \<open>w\<close> digits.\<close>

definition pad :: "nat \<Rightarrow> nat \<Rightarrow> string" where
  "pad w n = replicate (w - length (dec n)) (CHR ''0'') @ dec n"

text \<open>
  \<open>Number::toString\<close> on the modelled Numbers (the exponent notation of integers from
  \<open>10\<^sup>2\<^sup>1\<close> on is not modelled).
\<close>

definition Number_toString :: "int option \<Rightarrow> string" where
  "Number_toString n =
     (case n of
        None \<Rightarrow> ''NaN''
      | Some i \<Rightarrow> if i < 0 then CHR ''-'' # dec (nat (- i)) else dec (nat i))"

definition weekdayName :: "int \<Rightarrow> string" where
  "weekdayName d = [''Sun'', ''Mon'', ''Tue'', ''Wed'', ''Thu'', ''Fri'', ''Sat''] ! nat d"

definition monthName :: "int \<Rightarrow> string" where
  "monthName m =
     [''Jan'', ''Feb'', ''Mar'', ''Apr'', ''May'', ''Jun'',
      ''Jul'', ''Aug'', ''Sep'', ''Oct'', ''Nov'', ''Dec''] ! nat m"

text \<open>
  \<open>Date.prototype.toString\<close>: the date, the time and the time zone in local time, for
  example \<open>Mon Nov 02 2026 18:54:00 GMT+0000\<close> followed by the host's time zone text.
\<close>

definition Date_toString :: "host \<Rightarrow> int option \<Rightarrow> string" where
  "Date_toString H tv =
     (case tv of
        None \<Rightarrow> ''Invalid Date''
      | Some u \<Rightarrow>
          let t = LocalTime H u; yv = YearFromTime t
          in weekdayName (WeekDay t) @ '' '' @ monthName (MonthFromTime t) @ '' '' @
             pad 2 (nat (DateFromTime t)) @ '' '' @
             (if 0 \<le> yv then [] else ''-'') @ pad 4 (nat \<bar>yv\<bar>) @ '' '' @
             pad 2 (nat (HourFromTime t)) @ '':'' @ pad 2 (nat (MinFromTime t)) @ '':'' @
             pad 2 (nat (SecFromTime t)) @ '' GMT'' @
             (if 0 \<le> tza H then ''+'' else ''-'') @
             pad 2 (nat (HourFromTime \<bar>tza H\<bar>)) @ pad 2 (nat (MinFromTime \<bar>tza H\<bar>)) @
             tzName H)"

text \<open>
  \<open>StringToNumber\<close> for decimal integers: white space is trimmed, the empty string is 0, an
  optional sign and decimal digits give their value, and every other string is \<open>NaN\<close>.
  (Literals with a fraction, an exponent or a radix prefix, and \<open>Infinity\<close>, are not
  modelled; no conversion of the service produces one.) \<open>String.prototype.trim\<close> and
  \<open>StringToNumber\<close> strip the white space and the line terminators of ECMAScript; among
  the code units below 256 these are U+0009 to U+000D, U+0020 and U+00A0.
\<close>

definition is_ws :: "char \<Rightarrow> bool" where
  "is_ws c = (c \<in> set [CHR '' '', CHR 0x09, CHR 0x0A, CHR 0x0B, CHR 0x0C, CHR 0x0D, CHR 0xA0])"

definition trim :: "string \<Rightarrow> string" where
  "trim s = rev (dropWhile is_ws (rev (dropWhile is_ws s)))"

definition digit_value :: "char \<Rightarrow> nat option" where
  "digit_value c =
     (if c \<in> set ''0123456789'' then Some (of_char c - 48) else None)"

fun digits_value :: "nat \<Rightarrow> string \<Rightarrow> nat option" where
  "digits_value acc [] = Some acc"
| "digits_value acc (c # cs) =
     (case digit_value c of None \<Rightarrow> None | Some d \<Rightarrow> digits_value (10 * acc + d) cs)"

definition unsigned_value :: "string \<Rightarrow> int option" where
  "unsigned_value s = (if s = [] then None else map_option int (digits_value 0 s))"

definition StringToNumber :: "string \<Rightarrow> int option" where
  "StringToNumber s =
     (case trim s of
        [] \<Rightarrow> Some 0
      | c # cs \<Rightarrow>
          if c = CHR ''-'' then map_option uminus (unsigned_value cs)
          else if c = CHR ''+'' then unsigned_value cs
          else unsigned_value (c # cs))"

subsection \<open>Conversions and operators\<close>

definition ToNumber :: "jsval \<Rightarrow> int option" where
  "ToNumber v =
     (case v of
        Undefined \<Rightarrow> None
      | Null \<Rightarrow> Some 0
      | Bool b \<Rightarrow> Some (if b then 1 else 0)
      | Num n \<Rightarrow> n
      | Str s \<Rightarrow> StringToNumber s
      | DateObj tv \<Rightarrow> tv)"

definition ToString :: "host \<Rightarrow> jsval \<Rightarrow> string" where
  "ToString H v =
     (case v of
        Undefined \<Rightarrow> ''undefined''
      | Null \<Rightarrow> ''null''
      | Bool b \<Rightarrow> (if b then ''true'' else ''false'')
      | Num n \<Rightarrow> Number_toString n
      | Str s \<Rightarrow> s
      | DateObj tv \<Rightarrow> Date_toString H tv)"

definition is_Str :: "jsval \<Rightarrow> bool" where
  "is_Str v = (case v of Str _ \<Rightarrow> True | _ \<Rightarrow> False)"

text \<open>
  The operator \<open>+\<close>: a \<open>Date\<close> operand is converted with the hint \<open>default\<close>, which for
  dates means \<open>toString\<close>; when either operand is then a string, the operator
  concatenates the strings of both operands, otherwise it adds their numbers.
\<close>

definition js_add :: "host \<Rightarrow> jsval \<Rightarrow> jsval \<Rightarrow> jsval" where
  "js_add H x y =
     (let px = (case x of DateObj tv \<Rightarrow> Str (Date_toString H tv) | _ \<Rightarrow> x);
          py = (case y of DateObj tv \<Rightarrow> Str (Date_toString H tv) | _ \<Rightarrow> y)
      in if is_Str px \<or> is_Str py then Str (ToString H px @ ToString H py)
         else Num (num_add (ToNumber px) (ToNumber py)))"

text \<open>Strings are compared by their code units.\<close>

fun str_lt :: "string \<Rightarrow> string \<Rightarrow> bool" where
  "str_lt [] [] = False"
| "str_lt [] (d # ds) = True"
| "str_lt (c # cs) [] = False"
| "str_lt (c # cs) (d # ds) =
     (if (of_char c :: nat) < of_char d then True
      else if (of_char d :: nat) < of_char c then False
      else str_lt cs ds)"

text \<open>
  The abstract relational comparison \<open>x < y\<close>: \<open>Some\<close> of the answer, or \<open>None\<close> when
  it is undefined because an operand is \<open>NaN\<close>. Operands are converted with the hint
  \<open>number\<close> (a \<open>Date\<close> gives its time value); two strings are compared as strings,
  everything else as numbers.
\<close>

definition IsLessThan :: "jsval \<Rightarrow> jsval \<Rightarrow> bool option" where
  "IsLessThan x y =
     (case (x, y) of
        (Str a, Str b) \<Rightarrow> Some (str_lt a b)
      | _ \<Rightarrow>
          (case (ToNumber x, ToNumber y) of
             (Some a, Some b) \<Rightarrow> Some (a < b)
           | _ \<Rightarrow> None))"

definition js_lt :: "jsval \<Rightarrow> jsval \<Rightarrow> bool" where
  "js_lt x y = (IsLessThan x y = Some True)"

definition js_gt :: "jsval \<Rightarrow> jsval \<Rightarrow> bool" where
  "js_gt x y = (IsLessThan y x = Some True)"

definition js_le :: "jsval \<Rightarrow> jsval \<Rightarrow> bool" where
  "js_le x y = (IsLessThan y x = Some False)"

definition js_ge :: "jsval \<Rightarrow> jsval \<Rightarrow> bool" where
  "js_ge x y = (IsLessThan x y = Some False)"

text \<open>
  Strict equality \<open>===\<close> on the values of event fields. \<open>NaN\<close> is not equal to itself;
  two \<open>Date\<close> objects are equal only when they are the same object, which no comparison of
  the service meets, so they compare unequal here.
\<close>

definition strict_eq :: "jsval \<Rightarrow> jsval \<Rightarrow> bool" where
  "strict_eq x y =
     (case (x, y) of
        (Undefined, Undefined) \<Rightarrow> True
      | (Null, Null) \<Rightarrow> True
      | (Bool a, Bool b) \<Rightarrow> a = b
      | (Num (Some a), Num (Some b)) \<Rightarrow> a = b
      | (Str a, Str b) \<Rightarrow> a = b
      | _ \<Rightarrow> False)"

text \<open>Loose equality \<open>==\<close> of a value with a string literal.\<close>

definition loose_eq_str :: "host \<Rightarrow> jsval \<Rightarrow> string \<Rightarrow> bool" where
  "loose_eq_str H v s =
     (case v of
        Undefined \<Rightarrow> False
      | Null \<Rightarrow> False
      | Str a \<Rightarrow> a = s
      | DateObj tv \<Rightarrow> Date_toString H tv = s
      | _ \<Rightarrow> (case (ToNumber v, StringToNumber s) of (Some a, Some b) \<Rightarrow> a = b | _ \<Rightarrow> False))"

definition truthy :: "jsval \<Rightarrow> bool" where
  "truthy v =
     (case v of
        Undefined \<Rightarrow> False
      | Null \<Rightarrow> False
      | Bool b \<Rightarrow> b
      | Num n \<Rightarrow> (case n of None \<Rightarrow> False | Some i \<Rightarrow> i \<noteq> 0)
      | Str s \<Rightarrow> s \<noteq> []
      | DateObj tv \<Rightarrow> True)"

subsection \<open>\<open>Date\<close> objects\<close>

text \<open>
  \<open>new Date(v)\<close> with one argument, as the time value of the new object: a \<open>Date\<close> is
  copied, a string is parsed, any other value is converted to a Number.
\<close>

definition new_Date :: "host \<Rightarrow> jsval \<Rightarrow> int option" where
  "new_Date H v =
     (case v of
        DateObj tv \<Rightarrow> tv
      | Str s \<Rightarrow> dateParse H s
      | _ \<Rightarrow> ToNumber v)"

text \<open>
  \<open>new Date(year, month, date)\<close> with Number arguments: local midnight of that day; a year
  from 0 to 99 stands for 1900 plus that year.
\<close>

definition Date_ymd :: "host \<Rightarrow> int option \<Rightarrow> int option \<Rightarrow> int option \<Rightarrow> int option" where
  "Date_ymd H year month date =
     (case (year, month, date) of
        (Some y, Some m, Some dt) \<Rightarrow>
          let yr = (if 0 \<le> y \<and> y \<le> 99 then 1900 + y else y)
          in Some (UTC H (MakeDate (MakeDay yr m dt) (MakeTime 0 0 0 0)))
      | _ \<Rightarrow> None)"

definition getFullYear :: "host \<Rightarrow> int option \<Rightarrow> int option" where
  "getFullYear H tv = map_option (\<lambda>t. YearFromTime (LocalTime H t)) tv"

definition getMonth :: "host \<Rightarrow> int option \<Rightarrow> int option" where
  "getMonth H tv = map_option (\<lambda>t. MonthFromTime (LocalTime H t)) tv"

definition getDate :: "host \<Rightarrow> int option \<Rightarrow> int option" where
  "getDate H tv = map_option (\<lambda>t. DateFromTime (LocalTime H t)) tv"

definition getDay :: "host \<Rightarrow> int option \<Rightarrow> int option" where
  "getDay H tv = map_option (\<lambda>t. WeekDay (LocalTime H t)) tv"

definition getHours :: "host \<Rightarrow> int option \<Rightarrow> int option" where
  "getHours H tv = map_option (\<lambda>t. HourFromTime (LocalTime H t)) tv"

definition getMinutes :: "host \<Rightarrow> int option \<Rightarrow> int option" where
  "getMinutes H tv = map_option (\<lambda>t. MinFromTime (LocalTime H t)) tv"

definition setDate :: "host \<Rightarrow> int option \<Rightarrow> int option \<Rightarrow> int option" where
  "setDate H tv date =
     (case (tv, date) of
        (Some u, Some dt) \<Rightarrow>
          let t = LocalTime H u
          in Some (UTC H (MakeDate (MakeDay (YearFromTime t) (MonthFromTime t) dt)
                                   (TimeWithinDay t)))
      | _ \<Rightarrow> None)"

definition setHours :: "host \<Rightarrow> int option \<Rightarrow> int \<Rightarrow> int option" where
  "setHours H tv hour =
     map_option (\<lambda>u. let t = LocalTime H u
                     in UTC H (MakeDate (Day t)
                          (MakeTime hour (MinFromTime t) (SecFromTime t) (msFromTime t)))) tv"

definition setMinutes :: "host \<Rightarrow> int option \<Rightarrow> int \<Rightarrow> int option" where
  "setMinutes H tv minute =
     map_option (\<lambda>u. let t = LocalTime H u
                     in UTC H (MakeDate (Day t)
                          (MakeTime (HourFromTime t) minute (SecFromTime t) (msFromTime t)))) tv"

definition setSeconds :: "host \<Rightarrow> int option \<Rightarrow> int \<Rightarrow> int option" where
  "setSeconds H tv sec =
     map_option (\<lambda>u. let t = LocalTime H u
                     in UTC H (MakeDate (Day t)
                          (MakeTime (HourFromTime t) (MinFromTime t) sec (msFromTime t)))) tv"

definition setMilliseconds :: "host \<Rightarrow> int option \<Rightarrow> int \<Rightarrow> int option" where
  "setMilliseconds H tv ms =
     map_option (\<lambda>u. let t = LocalTime H u
                     in UTC H (MakeDate (Day t)
                          (MakeTime (HourFromTime t) (MinFromTime t) (SecFromTime t) ms))) tv"

section \<open>The event service (\<open>EventService\<close>)\<close>

text \<open>
  An event object; the field \<open>f\<close> of the source is \<open>ev_f\<close> here, and an absent field is
  \<open>Undefined\<close>. The display angles \<open>startAngle\<close> and \<open>endAngle\<close> are attached together
  by \<open>#addAnglesToEvent\<close>; \<open>ev_angles\<close> is \<open>None\<close> before that.
\<close>

record event =
  ev_id :: jsval
  ev_description :: jsval
  ev_start :: jsval
  ev_end :: jsval
  ev_color :: jsval
  ev_repeat :: jsval
  ev_checkRepeat :: jsval
  ev_angles :: "angles option"

text \<open>A window \<open>{start, end}\<close>.\<close>

record period =
  p_start :: jsval
  p_end :: jsval

record settings =
  autoDelete :: jsval
  colorTheme :: jsval

datatype error =
    EventNotObject
  | InvalidDescription
  | InvalidStartDate
  | InvalidEndDate
  | InvalidRepeat
  | ReferenceError string

text \<open>
  Modelled from the spec: the constant \<open>HOUR_MS\<close> of \<open>../Constants\<close> (not among the sources),
  one hour in milliseconds.
\<close>

definition HOUR_MS :: int where
  "HOUR_MS = 3600000"

text \<open>
  Modelled from the spec: the class \<open>Event\<close> of \<open>../models/Event\<close> (not among the sources);
  \<open>new Event(e)\<close> is a new event-shaped record with the fields of \<open>e\<close>, \<open>checkRepeat\<close>
  included.
\<close>

definition Event :: "event \<Rightarrow> event" where
  "Event e = e"

text \<open>
  Modelled from the spec: the file store \<open>FileService\<close> (not among the sources) keeps two
  named blobs, \<open>events\<close> and \<open>settings\<close>, and reading returns what was written. An absent
  or unreadable \<open>events\<close> blob reads as the empty list, as \<open>#loadEvents\<close> makes it; the
  entries of the stored array are objects. \<open>drawn\<close> counts the calls of \<open>#generatorId()\<close>
  so far.
\<close>

record service =
  events_file :: "event list"
  settings_file :: "settings option"
  actualEvents :: "event list"
  drawn :: nat

definition loadEvents :: "service \<Rightarrow> event list" where
  "loadEvents st = events_file st"

definition saveEvents :: "event list \<Rightarrow> service \<Rightarrow> service" where
  "saveEvents listOfEvents st = st\<lparr>events_file := listOfEvents\<rparr>"

subsection \<open>Settings (\<open>SettingsService\<close>)\<close>

definition validateSettings :: "settings \<Rightarrow> bool" where
  "validateSettings s = (is_Str (autoDelete s) \<and> is_Str (colorTheme s))"

definition setDefaultSettings :: "service \<Rightarrow> settings \<times> service" where
  "setDefaultSettings st =
     (let defaultSet = \<lparr>autoDelete = Str ''never'', colorTheme = Str ''standard''\<rparr>
      in (defaultSet, st\<lparr>settings_file := Some defaultSet\<rparr>))"

definition loadSettings :: "service \<Rightarrow> settings \<times> service" where
  "loadSettings st =
     (case settings_file st of
        None \<Rightarrow> setDefaultSettings st
      | Some s \<Rightarrow> if validateSettings s then (s, st) else setDefaultSettings st)"

subsection \<open>Validation\<close>

definition is_Date :: "jsval \<Rightarrow> bool" where
  "is_Date v = (case v of DateObj _ \<Rightarrow> True | _ \<Rightarrow> False)"

text \<open>
  \<open>#checkEventFields\<close> returns \<open>true\<close> or throws; it has no path that returns \<open>false\<close>.
  The argument \<open>None\<close> stands for a value that is not an object.
\<close>

definition checkEventFields :: "host \<Rightarrow> event option \<Rightarrow> error + bool" where
  "checkEventFields H event =
     (case event of
        None \<Rightarrow> Inl EventNotObject
      | Some ev \<Rightarrow>
          if (case ev_description ev of Str s \<Rightarrow> trim s = [] | _ \<Rightarrow> True)
          then Inl InvalidDescription
          else if \<not> is_Date (DateObj (new_Date H (ev_start ev))) then Inl InvalidStartDate
          else if \<not> is_Date (DateObj (new_Date H (ev_end ev))) then Inl InvalidEndDate
          else if (case ev_repeat ev of
                     Str s \<Rightarrow> s \<notin> set [''never'', ''day'', ''week'', ''month'']
                   | _ \<Rightarrow> True)
          then Inl InvalidRepeat
          else Inr True)"

subsection \<open>Actuality and retention filters\<close>

text \<open>\<open>now\<close> is the time value of \<open>new Date()\<close>, read once by each filter.\<close>

definition actualEventsFilter :: "host \<Rightarrow> int \<Rightarrow> event \<Rightarrow> bool" where
  "actualEventsFilter H now event =
     (let startEv = new_Date H (ev_start event);
          endEv = new_Date H (ev_end event)
      in (int_le (num_sub startEv (Some now)) (Some (10 * HOUR_MS)) \<and>
            js_ge (DateObj startEv) (DateObj (Some now))) \<or>
         (int_le (num_sub (Some now) endEv) (Some (2 * HOUR_MS)) \<and>
            js_ge (DateObj (Some now)) (DateObj endEv)) \<or>
         (js_ge (DateObj (Some now)) (DateObj startEv) \<and>
            js_le (DateObj (Some now)) (DateObj endEv)))"

definition deleteFilter :: "host \<Rightarrow> int \<Rightarrow> event \<Rightarrow> jsval \<Rightarrow> bool" where
  "deleteFilter H now event autoDel =
     (if truthy (ev_repeat event) \<and> \<not> loose_eq_str H (ev_repeat event) ''never'' then False
      else
        let end = new_Date H (ev_end event)
        in if strict_eq autoDel (Str ''day'')
           then js_gt (DateObj (Some now)) (DateObj end) \<and>
                int_gt (num_sub (Some now) end) (Some (HOUR_MS * 24))
           else if strict_eq autoDel (Str ''week'')
           then js_gt (DateObj (Some now)) (DateObj end) \<and>
                int_gt (num_sub (Some now) end) (Some (HOUR_MS * 24 * 7))
           else if strict_eq autoDel (Str ''month'')
           then js_gt (DateObj (Some now)) (DateObj end) \<and>
                int_gt (num_sub (Some now) end) (Some (HOUR_MS * 24 * 31))
           else False)"

fun autoDelete_loop ::
  "host \<Rightarrow> int \<Rightarrow> jsval \<Rightarrow> event list \<Rightarrow> event list \<Rightarrow> error + event list" where
  "autoDelete_loop H now autoDel [] deleteFilterDone = Inr deleteFilterDone"
| "autoDelete_loop H now autoDel (ev # rest) deleteFilterDone =
     (case checkEventFields H (Some ev) of
        Inl e \<Rightarrow> Inl e
      | Inr ok \<Rightarrow>
          autoDelete_loop H now autoDel rest
            (if ok \<and> \<not> deleteFilter H now ev autoDel then deleteFilterDone @ [ev]
             else deleteFilterDone))"

text \<open>
  An operation of the service returns the error it threw, if any, together with the state
  it left behind. Where an operation reads the clock more than once, the model passes it
  the one reading \<open>now\<close>.
\<close>

definition autoDeleteEvents :: "host \<Rightarrow> int \<Rightarrow> service \<Rightarrow> error option \<times> service" where
  "autoDeleteEvents H now st =
     (let (s, st1) = loadSettings st;
          loadedEvents = loadEvents st1
      in case autoDelete_loop H now (autoDelete s) loadedEvents [] of
           Inl e \<Rightarrow> (Some e, st1)
         | Inr deleteFilterDone \<Rightarrow> (None, saveEvents deleteFilterDone st1))"

subsection \<open>Recurrence\<close>

definition getMsToSameDateInNextMonth :: "host \<Rightarrow> event \<Rightarrow> int option" where
  "getMsToSameDateInNextMonth H event =
     (let start = new_Date H (ev_start event);
          currentDay = getDate H start;
          nextMonth0 = num_add (getMonth H start) (Some 1);
          nextYear0 = getFullYear H start;
          nextMonth = (if int_gt nextMonth0 (Some 11) then Some 0 else nextMonth0);
          nextYear = (if int_gt nextMonth0 (Some 11) then num_add nextYear0 (Some 1)
                      else nextYear0);
          daysInNextMonth = getDate H (Date_ymd H nextYear (num_add nextMonth (Some 1)) (Some 0));
          nextDay = num_min currentDay daysInNextMonth;
          nextEventDate = Date_ymd H nextYear nextMonth nextDay;
          diffInMs = num_sub nextEventDate start
      in diffInMs)"

definition getRepeatTimeMs :: "host \<Rightarrow> event \<Rightarrow> int option" where
  "getRepeatTimeMs H event =
     (if loose_eq_str H (ev_repeat event) ''day'' then Some (24 * HOUR_MS)
      else if loose_eq_str H (ev_repeat event) ''week'' then Some (7 * 24 * HOUR_MS)
      else if loose_eq_str H (ev_repeat event) ''month'' then getMsToSameDateInNextMonth H event
      else Some 0)"

text \<open>
  The \<open>while\<close> loop of \<open>#repeateRule\<close>. Nothing in its text bounds the number of rounds,
  so the loop is a partial function: \<open>None\<close> is a loop that never ends.
\<close>

partial_function (option) repeat_loop ::
  "host \<Rightarrow> event \<Rightarrow> period \<Rightarrow> int option \<Rightarrow> event \<Rightarrow> event list \<Rightarrow> event list option" where
  "repeat_loop H event per repeatMs repeatedEvent listToAdd =
     (if js_le (ev_start repeatedEvent) (DateObj (new_Date H (p_end per)))
      then
        let listToAdd' = listToAdd @ [Event repeatedEvent];
            repeatMs' = (if strict_eq (ev_repeat event) (Str ''month'')
                         then getMsToSameDateInNextMonth H repeatedEvent else repeatMs);
            repeatedEvent' = repeatedEvent
              \<lparr>ev_start := js_add H (DateObj (new_Date H (ev_start repeatedEvent))) (Num repeatMs'),
               ev_end := js_add H (DateObj (new_Date H (ev_end repeatedEvent))) (Num repeatMs')\<rparr>
        in repeat_loop H event per repeatMs' repeatedEvent' listToAdd'
      else Some listToAdd)"

definition repeateRule :: "host \<Rightarrow> event \<Rightarrow> period \<Rightarrow> event list \<Rightarrow> event list option" where
  "repeateRule H event per listToAdd =
     (let repeatMs = getRepeatTimeMs H event
      in if \<not> strict_eq (ev_repeat event) (Str ''never'')
         then
           let repeatedEvent = event
                 \<lparr>ev_checkRepeat := ev_repeat event,
                  ev_repeat := Str ''never'',
                  ev_start := js_add H (DateObj (new_Date H (ev_start event))) (Num repeatMs),
                  ev_end := js_add H (DateObj (new_Date H (ev_end event))) (Num repeatMs)\<rparr>
           in repeat_loop H event per repeatMs repeatedEvent listToAdd
         else Some listToAdd)"

subsection \<open>Display angles of an event\<close>

text \<open>\<open>EventService.convertTimeToAngle\<close>: the angle of the local hour and minute of a time.\<close>

definition EventService_convertTimeToAngle :: "host \<Rightarrow> jsval \<Rightarrow> real option" where
  "EventService_convertTimeToAngle H time =
     (let date = new_Date H time
      in case (getHours H date, getMinutes H date) of
           (Some hours, Some minutes) \<Rightarrow>
             let result = real_of_int (hours * 60 + minutes) * 0.5
             in Some (if result \<ge> 360 then js_rem result 360 else result)
         | _ \<Rightarrow> None)"

text \<open>
  \<open>#calculateEventAngles\<close>. The second branch calls \<open>EventsManager.convertTimeToAngle\<close>;
  no binding named \<open>EventsManager\<close> exists in the module, so reaching that branch throws a
  \<open>ReferenceError\<close>.
\<close>

definition calculateEventAngles :: "host \<Rightarrow> event \<Rightarrow> int \<Rightarrow> error + angles" where
  "calculateEventAngles H event timeNow =
     (let startAngle0 = EventService_convertTimeToAngle H (ev_start event);
          endAngle0 = EventService_convertTimeToAngle H (ev_end event);
          deleteTime =
            new_Date H (Num (num_sub (new_Date H (Num (Some timeNow))) (Some (2 * HOUR_MS))))
      in if js_lt (DateObj (new_Date H (ev_start event))) (DateObj deleteTime)
         then
           let startAngle1 = EventService_convertTimeToAngle H (DateObj deleteTime)
           in Inr \<lparr>startAngle = (if num_gt startAngle1 endAngle0
                                    then num_sub startAngle1 (Some 360) else startAngle1),
                    endAngle = endAngle0\<rparr>
         else if int_gt (new_Date H (ev_end event)) (Some (timeNow + 10 * HOUR_MS))
         then Inl (ReferenceError ''EventsManager'')
         else Inr \<lparr>startAngle = (if num_gt startAngle0 endAngle0
                                    then num_sub startAngle0 (Some 360) else startAngle0),
                    endAngle = endAngle0\<rparr>)"

definition addAnglesToEvent :: "host \<Rightarrow> int \<Rightarrow> event \<Rightarrow> error + event" where
  "addAnglesToEvent H now event =
     (case calculateEventAngles H event now of
        Inl e \<Rightarrow> Inl e
      | Inr a \<Rightarrow> Inr (event\<lparr>ev_angles := Some a\<rparr>))"

subsection \<open>The derived list of actual events\<close>

fun upload_loop ::
  "host \<Rightarrow> int \<Rightarrow> period \<Rightarrow> event list \<Rightarrow> event list \<Rightarrow> (error option \<times> event list) option"
  where
  "upload_loop H now per [] actual = Some (None, actual)"
| "upload_loop H now per (ev # rest) actual =
     (case repeateRule H ev per actual of
        None \<Rightarrow> None
      | Some actual1 \<Rightarrow>
          (case checkEventFields H (Some ev) of
             Inl e \<Rightarrow> Some (Some e, actual1)
           | Inr ok \<Rightarrow>
               if ok \<and> actualEventsFilter H now ev
               then (case addAnglesToEvent H now ev of
                       Inl e \<Rightarrow> Some (Some e, actual1)
                     | Inr ev' \<Rightarrow> upload_loop H now per rest (actual1 @ [ev']))
               else upload_loop H now per rest actual1))"

definition uploadActualEvents ::
  "host \<Rightarrow> int \<Rightarrow> service \<Rightarrow> (error option \<times> service) option" where
  "uploadActualEvents H now st =
     (let st0 = st\<lparr>actualEvents := []\<rparr>;
          loadedEvents = loadEvents st0;
          start = now - 2 * HOUR_MS;
          end = now + 10 * HOUR_MS;
          per = \<lparr>p_start = DateObj (new_Date H (Num (Some start))),
                 p_end = DateObj (new_Date H (Num (Some end)))\<rparr>
      in map_option (\<lambda>(err, actual). (err, st0\<lparr>actualEvents := actual\<rparr>))
           (upload_loop H now per loadedEvents []))"

subsection \<open>Creating and editing events\<close>

text \<open>
  The \<open>while\<close> loop of \<open>#generateEventId\<close>: as long as some loaded event has the id of the
  new event (\<open>allEvents.some(...)\<close>, here \<open>id_taken\<close>), the id is replaced by the next
  generated one. \<open>k\<close> is the number of ids drawn
  so far. The loop need not end: \<open>None\<close>.
\<close>

definition id_taken :: "event list \<Rightarrow> jsval \<Rightarrow> bool" where
  "id_taken allEvents i = list_ex (\<lambda>existingEvent. strict_eq (ev_id existingEvent) i) allEvents"

partial_function (option) generateEventId ::
  "host \<Rightarrow> event \<Rightarrow> event list \<Rightarrow> nat \<Rightarrow> (event \<times> nat) option" where
  "generateEventId H event allEvents k =
     (if id_taken allEvents (ev_id event)
      then generateEventId H (event\<lparr>ev_id := Str (generatorId H k)\<rparr>) allEvents (Suc k)
      else Some (event, k))"

text \<open>The new event carries an id: a string or a number.\<close>

definition has_id :: "jsval \<Rightarrow> bool" where
  "has_id i = (case i of Str _ \<Rightarrow> True | Num (Some _) \<Rightarrow> True | _ \<Rightarrow> False)"

text \<open>No two events of a collection have the same id.\<close>

fun unique_ids :: "event list \<Rightarrow> bool" where
  "unique_ids [] = True"
| "unique_ids (e # es) = (\<not> id_taken es (ev_id e) \<and> unique_ids es)"

definition createNewEvent ::
  "host \<Rightarrow> int \<Rightarrow> event option \<Rightarrow> service \<Rightarrow> (error option \<times> service) option" where
  "createNewEvent H now event st =
     (case checkEventFields H event of
        Inl e \<Rightarrow> Some (Some e, st)
      | Inr _ \<Rightarrow>
          (case event of
             None \<Rightarrow> Some (Some EventNotObject, st)
           | Some ev \<Rightarrow>
               let result = loadEvents st
               in case generateEventId H ev result (drawn st) of
                    None \<Rightarrow> None
                  | Some (ev', k) \<Rightarrow>
                      uploadActualEvents H now (saveEvents (result @ [ev']) (st\<lparr>drawn := k\<rparr>))))"

fun edit_loop :: "host \<Rightarrow> event \<Rightarrow> event list \<Rightarrow> event list \<Rightarrow> error + event list" where
  "edit_loop H event [] result = Inr result"
| "edit_loop H event (ev # rest) result =
     (case checkEventFields H (Some ev) of
        Inl e \<Rightarrow> Inl e
      | Inr ok \<Rightarrow>
          edit_loop H event rest
            (if ok \<and> strict_eq (ev_id event) (ev_id ev) then result @ [event]
             else result @ [ev]))"

definition editEvent ::
  "host \<Rightarrow> int \<Rightarrow> event \<Rightarrow> service \<Rightarrow> (error option \<times> service) option" where
  "editEvent H now event st =
     (case edit_loop H event (loadEvents st) [] of
        Inl e \<Rightarrow> Some (Some e, st)
      | Inr result \<Rightarrow> uploadActualEvents H now (saveEvents result st))"

subsection \<open>The list of a week\<close>

definition getWeekRange :: "host \<Rightarrow> jsval \<Rightarrow> period" where
  "getWeekRange H date =
     (let currentDate = new_Date H date;
          dayOfWeek = getDay H currentDate;
          diffToMonday = (if dayOfWeek = Some 0 then Some (- 6) else num_sub (Some 1) dayOfWeek);
          monday0 = setDate H currentDate (num_add (getDate H currentDate) diffToMonday);
          sunday0 = monday0;
          monday = setMilliseconds H (setSeconds H (setMinutes H (setHours H monday0 0) 0) 0) 0;
          sunday1 = setMilliseconds H (setSeconds H (setMinutes H (setHours H sunday0 0) 0) 0) 0;
          sunday = setDate H sunday1 (num_add (getDate H monday) (Some 7))
      in \<lparr>p_start = DateObj monday, p_end = DateObj sunday\<rparr>)"

text \<open>
  The loop of \<open>getWeekListOfEvents\<close>. In the branch of a non-repeating event the second
  operand of \<open>&&\<close> is \<open>new Date(ev.start <= week.end)\<close>: a \<open>Date\<close> object made from the result
  of the comparison.
\<close>

fun week_loop :: "host \<Rightarrow> period \<Rightarrow> event list \<Rightarrow> event list \<Rightarrow> event list option" where
  "week_loop H week [] resultList = Some resultList"
| "week_loop H week (ev0 # rest) resultList =
     (let ev = ev0\<lparr>ev_checkRepeat := ev_repeat ev0\<rparr>
      in if \<not> loose_eq_str H (ev_repeat ev) ''never''
         then (case repeateRule H (Event ev) week resultList of
                 None \<Rightarrow> None
               | Some resultList1 \<Rightarrow> week_loop H week rest resultList1)
         else if js_ge (DateObj (new_Date H (ev_start ev))) (p_start week) \<and>
                 truthy (DateObj (new_Date H (Bool (js_le (ev_start ev) (p_end week)))))
         then week_loop H week rest (resultList @ [Event ev])
         else week_loop H week rest resultList)"

text \<open>
  \<open>resultList.sort((a, b) => new Date(a.start) - new Date(b.start))\<close> as a stable insertion
  sort driven by the comparator, whose \<open>NaN\<close> counts as 0. (For a comparator that is not
  consistent, as with invalid dates, the order is implementation-defined.)
\<close>

definition compare_start :: "host \<Rightarrow> event \<Rightarrow> event \<Rightarrow> int" where
  "compare_start H a b =
     (case num_sub (new_Date H (ev_start a)) (new_Date H (ev_start b)) of
        None \<Rightarrow> 0
      | Some v \<Rightarrow> v)"

fun insert_event :: "host \<Rightarrow> event \<Rightarrow> event list \<Rightarrow> event list" where
  "insert_event H x [] = [x]"
| "insert_event H x (y # ys) =
     (if compare_start H y x > 0 then x # y # ys else y # insert_event H x ys)"

definition sort_events :: "host \<Rightarrow> event list \<Rightarrow> event list" where
  "sort_events H xs = foldl (\<lambda>sorted x. insert_event H x sorted) [] xs"

definition getWeekListOfEvents ::
  "host \<Rightarrow> int \<Rightarrow> jsval \<Rightarrow> service \<Rightarrow> ((error + event list) \<times> service) option" where
  "getWeekListOfEvents H now date st =
     (case autoDeleteEvents H now st of
        (Some e, st1) \<Rightarrow> Some (Inl e, st1)
      | (None, st1) \<Rightarrow>
          let week = getWeekRange H date;
              loadedEvents = loadEvents st1
          in map_option (\<lambda>resultList. (Inr (sort_events H resultList), st1))
               (week_loop H week loadedEvents []))"

section \<open>Sample data\<close>

text \<open>
  A host in the UTC time zone whose \<open>Date.parse\<close> recognises nothing and whose generated
  ids are \<open>id0\<close>, \<open>id1\<close>, ...; an event with numeric time stamps; a service state with a
  stored collection and an \<open>autoDelete\<close> setting.
\<close>

definition host0 :: host where
  "host0 = \<lparr>tza = 0, tzName = [], dateParse = (\<lambda>s. None), generatorId = (\<lambda>k. ''id'' @ dec k)\<rparr>"

definition sample_event :: "jsval \<Rightarrow> string \<Rightarrow> int \<Rightarrow> int \<Rightarrow> string \<Rightarrow> event" where
  "sample_event i d s e r =
     \<lparr>ev_id = i, ev_description = Str d, ev_start = Num (Some s), ev_end = Num (Some e),
      ev_color = Str ''0x1E90FF'', ev_repeat = Str r, ev_checkRepeat = Undefined,
      ev_angles = None\<rparr>"

definition sample_service :: "event list \<Rightarrow> string \<Rightarrow> service" where
  "sample_service evs ad =
     \<lparr>events_file = evs,
      settings_file = Some \<lparr>autoDelete = Str ad, colorTheme = Str ''standard''\<rparr>,
      actualEvents = [], drawn = 0\<rparr>"

section \<open>Properties of the dial geometry\<close>

lemma js_rem_range:
  assumes "0 \<le> a" "0 < b"
  shows "0 \<le> js_rem a b \<and> js_rem a b < b"
proof -
  have q: "0 \<le> a / b" using assms by simp
  have lo: "of_int \<lfloor>a / b\<rfloor> * b \<le> a" using assms(2) by (rule floor_divide_lower)
  have hi: "a < (of_int \<lfloor>a / b\<rfloor> + 1) * b" using assms(2) by (rule floor_divide_upper)
  show ?thesis using q lo hi by (simp add: js_rem_def algebra_simps)
qed

lemma convertTimeToAngle_range:
  assumes "0 \<le> time_h t" "0 \<le> time_m t"
  shows "0 \<le> convertTimeToAngle t \<and> convertTimeToAngle t < 360"
proof -
  have "0 \<le> (time_h t * 60 + time_m t) * 0.5" using assms by simp
  then show ?thesis
    using js_rem_range [of "(time_h t * 60 + time_m t) * 0.5" 360]
    by (auto simp: convertTimeToAngle_def Let_def)
qed

lemma isThisEvent_non_wrapping:
  assumes "s \<le> e"
  shows "isThisEvent x y \<lparr>startAngle = Some s, endAngle = Some e\<rparr> =
           (sqrt ((x - 240)\<^sup>2 + (y - 240)\<^sup>2) \<le> 200 \<and>
            (let p = (if s < 0 \<and> pointAngleOf x y > 270 then pointAngleOf x y - 360
                      else pointAngleOf x y)
             in s \<le> p \<and> p \<le> e))"
  using assms by (auto simp: isThisEvent_def Let_def num_ge_def)

text \<open>
  C10. For an event whose start and end have hours in \<open>[0, 24)\<close> and minutes in \<open>[0, 60)\<close>,
  \<open>calculateAngles\<close> returns an end angle in \<open>[0, 360)\<close> and a start angle in
  \<open>[-360, 360)\<close> that is not greater than the end angle; so the hit test \<open>isThisEvent\<close>, given
  these angles, never takes its wrapping branch (the case \<open>startAngle > endAngle\<close>): it is the
  distance test together with the range test of the non-wrapping branch.
\<close>

theorem calculateAngles_ordered:
  assumes "0 \<le> time_h (de_start event)" "time_h (de_start event) < 24"
      and "0 \<le> time_m (de_start event)" "time_m (de_start event) < 60"
      and "0 \<le> time_h (de_end event)" "time_h (de_end event) < 24"
      and "0 \<le> time_m (de_end event)" "time_m (de_end event) < 60"
  shows "\<exists>s e. calculateAngles event = \<lparr>startAngle = Some s, endAngle = Some e\<rparr> \<and>
           0 \<le> e \<and> e < 360 \<and> - 360 \<le> s \<and> s < 360 \<and> s \<le> e \<and>
           isThisEvent x y (calculateAngles event) =
             (sqrt ((x - 240)\<^sup>2 + (y - 240)\<^sup>2) \<le> 200 \<and>
              (let p = (if s < 0 \<and> pointAngleOf x y > 270 then pointAngleOf x y - 360
                        else pointAngleOf x y)
               in s \<le> p \<and> p \<le> e))"
proof -
  let ?raw = "convertTimeToAngle (de_start event)"
  let ?e = "convertTimeToAngle (de_end event)"
  let ?s = "if ?raw > ?e then ?raw - 360 else ?raw"
  have raw: "0 \<le> ?raw \<and> ?raw < 360" using assms by (intro convertTimeToAngle_range) auto
  have e: "0 \<le> ?e \<and> ?e < 360" using assms by (intro convertTimeToAngle_range) auto
  have eq: "calculateAngles event = \<lparr>startAngle = Some ?s, endAngle = Some ?e\<rparr>"
    by (simp add: calculateAngles_def Let_def)
  have ord: "?s \<le> ?e" using raw e by auto
  have rng: "- 360 \<le> ?s \<and> ?s < 360" using raw e by auto
  have hit: "isThisEvent x y \<lparr>startAngle = Some ?s, endAngle = Some ?e\<rparr> =
             (sqrt ((x - 240)\<^sup>2 + (y - 240)\<^sup>2) \<le> 200 \<and>
              (let p = (if ?s < 0 \<and> pointAngleOf x y > 270 then pointAngleOf x y - 360
                        else pointAngleOf x y)
               in ?s \<le> p \<and> p \<le> ?e))"
    using ord by (rule isThisEvent_non_wrapping)
  show ?thesis
    apply (rule exI [of _ ?s], rule exI [of _ ?e])
    using eq e ord rng hit by simp
qed

text \<open>The third mock event of the page, from 11:00 to 0:00, tapped at the point (240, 100).\<close>

theorem calculateAngles_ordered_witness:
  "\<exists>s e. calculateAngles \<lparr>de_start = \<lparr>time_h = 11, time_m = 0\<rparr>,
                           de_end = \<lparr>time_h = 0, time_m = 0\<rparr>\<rparr>
            = \<lparr>startAngle = Some s, endAngle = Some e\<rparr> \<and>
         0 \<le> e \<and> e < 360 \<and> - 360 \<le> s \<and> s < 360 \<and> s \<le> e \<and>
         isThisEvent 240 100 (calculateAngles \<lparr>de_start = \<lparr>time_h = 11, time_m = 0\<rparr>,
                                              de_end = \<lparr>time_h = 0, time_m = 0\<rparr>\<rparr>) =
           (sqrt ((240 - 240)\<^sup>2 + (100 - 240)\<^sup>2) \<le> 200 \<and>
            (let p = (if s < 0 \<and> pointAngleOf 240 100 > 270 then pointAngleOf 240 100 - 360
                      else pointAngleOf 240 100)
             in s \<le> p \<and> p \<le> e))"
  using calculateAngles_ordered
    [of "\<lparr>de_start = \<lparr>time_h = 11, time_m = 0\<rparr>, de_end = \<lparr>time_h = 0, time_m = 0\<rparr>\<rparr>" 240 100]
  by simp

text \<open>
  C9. Whatever the angles of the event, the hit test \<open>isThisEvent\<close> returns false for a
  point whose Euclidean distance from the centre (240, 240) of the dial exceeds the radius
  200.
\<close>

theorem isThisEvent_outside_radius:
  assumes "sqrt ((x - 240)\<^sup>2 + (y - 240)\<^sup>2) > 200"
  shows "isThisEvent x y event = False"
  using assms by (simp add: isThisEvent_def)

theorem isThisEvent_outside_radius_witness:
  "sqrt ((0 - 240)\<^sup>2 + (0 - 240)\<^sup>2) > (200 :: real) \<and>
   isThisEvent 0 0 \<lparr>startAngle = Some 0, endAngle = Some 90\<rparr> = False"
proof -
  have far: "sqrt ((0 - 240)\<^sup>2 + (0 - 240)\<^sup>2) > (200 :: real)"
    by (rule real_less_rsqrt) simp
  show ?thesis
    using far isThisEvent_outside_radius [OF far, of "\<lparr>startAngle = Some 0, endAngle = Some 90\<rparr>"]
    by simp
qed

section \<open>Properties of dates and conversions\<close>

lemma js_lt_dates: "js_lt (DateObj a) (DateObj b) = int_lt a b"
  by (cases a; cases b) (simp_all add: js_lt_def IsLessThan_def ToNumber_def)

lemma js_gt_dates: "js_gt (DateObj a) (DateObj b) = int_gt a b"
  by (cases a; cases b) (simp_all add: js_gt_def IsLessThan_def ToNumber_def int_gt_def)

lemma js_le_dates: "js_le (DateObj a) (DateObj b) = int_le a b"
  by (cases a; cases b) (auto simp: js_le_def IsLessThan_def ToNumber_def)

lemma js_ge_dates: "js_ge (DateObj a) (DateObj b) = int_ge a b"
  by (cases a; cases b) (auto simp: js_ge_def IsLessThan_def ToNumber_def int_ge_def)

lemma host0_time: "LocalTime host0 t = t" "UTC host0 t = t"
  by (simp_all add: LocalTime_def UTC_def host0_def)

lemma sample_event_valid:
  "r \<in> set [''never'', ''day'', ''week'', ''month''] \<Longrightarrow>
   checkEventFields H (Some (sample_event i ''Tea'' s e r)) = Inr True"
  by (auto simp: checkEventFields_def sample_event_def trim_def is_ws_def is_Date_def)

subsection \<open>The calendar\<close>

lemma div_step:
  fixes a k :: int
  assumes "0 < k"
  shows "(a + 1) div k = a div k + (if (a + 1) mod k = 0 then 1 else 0)"
proof -
  have e: "a = k * (a div k) + a mod k" by simp
  have r: "0 \<le> a mod k" "a mod k < k" using assms by simp_all
  show ?thesis
  proof (cases "a mod k = k - 1")
    case True
    have d: "k * (a div k + 1) = k * (a div k) + k" by (simp add: algebra_simps)
    have eq: "a + 1 = k * (a div k + 1) + 0" using e True d by linarith
    have "(a + 1) div k = a div k + 1"
      by (rule int_div_pos_eq [OF eq]) (use assms in auto)
    moreover have "(a + 1) mod k = 0"
      by (rule int_mod_pos_eq [OF eq]) (use assms in auto)
    ultimately show ?thesis by simp
  next
    case False
    have eq: "a + 1 = k * (a div k) + (a mod k + 1)" using e by linarith
    have "(a + 1) div k = a div k"
      by (rule int_div_pos_eq [OF eq]) (use r False in auto)
    moreover have "(a + 1) mod k = a mod k + 1"
      by (rule int_mod_pos_eq [OF eq]) (use r False in auto)
    ultimately show ?thesis using r by simp
  qed
qed

lemma mod_100_4: "y mod 100 = 0 \<Longrightarrow> y mod 4 = 0" for y :: int
  using dvd_trans [of 4 100 y] by (simp add: mod_eq_0_iff_dvd)

lemma mod_400_100: "y mod 400 = 0 \<Longrightarrow> y mod 100 = 0" for y :: int
  using dvd_trans [of 100 400 y] by (simp add: mod_eq_0_iff_dvd)

lemma mod_shift: "(y - c) mod k = 0 \<longleftrightarrow> y mod k = 0" if "c mod k = 0" for y c k :: int
  using that by (simp add: mod_eq_0_iff_dvd dvd_diff_left_iff)

text \<open>The first day of the next year is \<open>DaysInYear\<close> days later.\<close>

lemma DayFromYear_Suc: "DayFromYear (y + 1) = DayFromYear y + DaysInYear y"
proof -
  have a: "(y - 1968) div 4 = (y - 1969) div 4 + (if y mod 4 = 0 then 1 else 0)"
    using div_step [of 4 "y - 1969"] mod_shift [of 1968 4 y] by simp
  have b: "(y - 1900) div 100 = (y - 1901) div 100 + (if y mod 100 = 0 then 1 else 0)"
    using div_step [of 100 "y - 1901"] mod_shift [of 1900 100 y] by simp
  have c: "(y - 1600) div 400 = (y - 1601) div 400 + (if y mod 400 = 0 then 1 else 0)"
    using div_step [of 400 "y - 1601"] mod_shift [of 1600 400 y] by simp
  have "DayFromYear (y + 1) =
          365 * (y - 1969) + (y - 1968) div 4 - (y - 1900) div 100 + (y - 1600) div 400"
    by (simp add: DayFromYear_def algebra_simps)
  then show ?thesis
    using mod_100_4 [of y] mod_400_100 [of y]
    by (simp add: a b c DayFromYear_def DaysInYear_def)
qed

lemma DaysInYear_cases: "DaysInYear y = 365 \<or> DaysInYear y = 366"
  by (simp add: DaysInYear_def)

lemma DayFromYear_less: "DayFromYear y < DayFromYear (y + 1)"
  using DaysInYear_cases [of y] by (auto simp: DayFromYear_Suc)

lemma DayFromYear_mono: "a \<le> b \<Longrightarrow> DayFromYear a \<le> DayFromYear b"
proof (induction "nat (b - a)" arbitrary: b)
  case 0
  then show ?case by simp
next
  case (Suc n)
  then have "n = nat (b - 1 - a)" "a \<le> b - 1" by linarith+
  then have "DayFromYear a \<le> DayFromYear (b - 1)" using Suc.hyps(1) by blast
  then show ?case using DayFromYear_less [of "b - 1"] by simp
qed

lemma year_search_bounds:
  "DayFromYear (year_search d y) \<le> d \<and> d < DayFromYear (year_search d y + 1)"
proof (induction d y rule: year_search.induct)
  case (1 d y)
  show ?case
  proof (cases "d < DayFromYear y")
    case True
    then show ?thesis using 1(1) by (subst (1 2) year_search.simps) simp
  next
    case False
    show ?thesis
    proof (cases "DayFromYear (y + 1) \<le> d")
      case True
      then show ?thesis using False 1(2) by (subst (1 2) year_search.simps) simp
    next
      case nle: False
      then show ?thesis using False by (subst (1 2) year_search.simps) simp
    qed
  qed
qed

text \<open>\<open>YearFromDay\<close> is the year that contains the day.\<close>

lemma YearFromDay_eq:
  assumes "DayFromYear y \<le> d" "d < DayFromYear (y + 1)"
  shows "YearFromDay d = y"
proof -
  let ?Y = "YearFromDay d"
  have b: "DayFromYear ?Y \<le> d" "d < DayFromYear (?Y + 1)"
    using year_search_bounds [of d "1970 + d div 365"] by (simp_all add: YearFromDay_def)
  have "\<not> ?Y < y"
  proof
    assume "?Y < y"
    then have "DayFromYear (?Y + 1) \<le> DayFromYear y" by (intro DayFromYear_mono) simp
    then show False using b assms by linarith
  qed
  moreover have "\<not> y < ?Y"
  proof
    assume "y < ?Y"
    then have "DayFromYear (y + 1) \<le> DayFromYear ?Y" by (intro DayFromYear_mono) simp
    then show False using b assms by linarith
  qed
  ultimately show ?thesis by linarith
qed

lemma Day_MakeDate: "0 \<le> tm \<Longrightarrow> tm < msPerDay \<Longrightarrow> Day (MakeDate d tm) = d"
  by (simp add: Day_def MakeDate_def msPerDay_def div_pos_pos_trivial)

lemma Local_UTC: "LocalTime H (UTC H t) = t"
  by (simp add: LocalTime_def UTC_def)

lemma day_in_year:
  assumes "0 \<le> k" "k < 365" "Day t = DayFromYear y + k"
  shows "YearFromTime t = y" "DayWithinYear t = k"
        "InLeapYear t = (if DaysInYear y = 366 then 1 else 0)"
proof -
  have "DayFromYear y \<le> Day t" "Day t < DayFromYear (y + 1)"
    using assms DaysInYear_cases [of y] by (auto simp: DayFromYear_Suc)
  then show y: "YearFromTime t = y" unfolding YearFromTime_def by (rule YearFromDay_eq)
  show "DayWithinYear t = k" using y assms by (simp add: DayWithinYear_def)
  show "InLeapYear t = (if DaysInYear y = 366 then 1 else 0)" using y by (simp add: InLeapYear_def)
qed

lemma civil_2026:
  assumes "0 \<le> k" "k < 365" "Day t = DayFromYear 2026 + k"
  shows "YearFromTime t = 2026" "DayWithinYear t = k" "InLeapYear t = 0"
  using day_in_year [OF assms] by (simp_all add: DaysInYear_def)

lemma last_day_of_February:
  fixes y :: int
  defines "l \<equiv> (if DaysInYear y = 366 then 1 else 0)"
  assumes "t = MakeDate (DayFromYear y + 58 + l) 0"
  shows "YearFromTime t = y" "MonthFromTime t = 1" "DateFromTime t = 28 + l"
proof -
  have l: "l = 0 \<or> l = 1" by (simp add: l_def)
  have d: "Day t = DayFromYear y + (58 + l)"
    using assms(2) by (simp add: Day_MakeDate msPerDay_def)
  have k: "0 \<le> 58 + l" "58 + l < 365" using l by auto
  note f = day_in_year [OF k d]
  show "YearFromTime t = y" by (rule f(1))
  show m: "MonthFromTime t = 1"
    using l by (auto simp: MonthFromTime_def Let_def f monthStart_def l_def)
  show "DateFromTime t = 28 + l"
    using l by (auto simp: DateFromTime_def m f monthStart_def l_def)
qed

section \<open>Properties of the filters\<close>

text \<open>
  C8. The actuality predicate \<open>#actualEventsFilter\<close> is true exactly when (a) the start of
  the event is not before now and at most 10 hours after now, or (b) its end is not after
  now and at most 2 hours before now, or (c) now lies between its start and its end, both
  included. A start or end that is not a valid date satisfies none of the comparisons.
\<close>

theorem actualEventsFilter_iff:
  "actualEventsFilter H now event \<longleftrightarrow>
     (\<exists>s. new_Date H (ev_start event) = Some s \<and> now \<le> s \<and> s - now \<le> 10 * 3600000) \<or>
     (\<exists>e. new_Date H (ev_end event) = Some e \<and> e \<le> now \<and> now - e \<le> 2 * 3600000) \<or>
     (\<exists>s e. new_Date H (ev_start event) = Some s \<and> new_Date H (ev_end event) = Some e \<and>
            s \<le> now \<and> now \<le> e)"
  by (cases "new_Date H (ev_start event)"; cases "new_Date H (ev_end event)")
     (auto simp: actualEventsFilter_def Let_def js_ge_dates js_le_dates int_ge_def num_sub_def
        HOUR_MS_def)

text \<open>
  At time 0: an event that starts in exactly 10 hours is actual, one that starts a
  millisecond later is not; an event that ended exactly 2 hours ago is actual, one that
  ended a millisecond earlier is not.
\<close>

theorem actualEventsFilter_iff_witness:
  "actualEventsFilter host0 0 (sample_event (Str ''a'') ''Tea'' 36000000 39600000 ''never'') \<and>
   \<not> actualEventsFilter host0 0 (sample_event (Str ''a'') ''Tea'' 36000001 39600000 ''never'') \<and>
   actualEventsFilter host0 0 (sample_event (Str ''a'') ''Tea'' (- 9000000) (- 7200000) ''never'') \<and>
   \<not> actualEventsFilter host0 0 (sample_event (Str ''a'') ''Tea'' (- 9000000) (- 7200001) ''never'')"
  using actualEventsFilter_iff [of host0 0 "sample_event (Str ''a'') ''Tea'' 36000000 39600000 ''never''"]
        actualEventsFilter_iff [of host0 0 "sample_event (Str ''a'') ''Tea'' 36000001 39600000 ''never''"]
        actualEventsFilter_iff [of host0 0 "sample_event (Str ''a'') ''Tea'' (- 9000000) (- 7200000) ''never''"]
        actualEventsFilter_iff [of host0 0 "sample_event (Str ''a'') ''Tea'' (- 9000000) (- 7200001) ''never''"]
  by (simp add: sample_event_def new_Date_def ToNumber_def)

lemma valid_repeat:
  assumes "checkEventFields H (Some event) = Inr True"
  shows "\<exists>r. ev_repeat event = Str r \<and> r \<in> set [''never'', ''day'', ''week'', ''month'']"
  using assms
  by (cases "ev_repeat event") (auto simp: checkEventFields_def split: if_splits)

text \<open>
  C7. For an event that passes \<open>#checkEventFields\<close> and any \<open>autoDelete\<close> setting, the
  retention filter \<open>#deleteFilter\<close> marks the event for purging exactly when the event does
  not repeat and now minus its end is strictly more than 24 hours under \<open>day\<close>, 7 days under
  \<open>week\<close>, 31 days under \<open>month\<close>. Under \<open>never\<close> (or any other setting) nothing is
  marked, and a repeating event is never marked.
\<close>

theorem deleteFilter_iff:
  assumes "checkEventFields H (Some event) = Inr True"
  shows "deleteFilter H now event autoDel \<longleftrightarrow>
           ev_repeat event = Str ''never'' \<and>
           (\<exists>e. new_Date H (ev_end event) = Some e \<and>
                ((autoDel = Str ''day'' \<and> now - e > 24 * 3600000) \<or>
                 (autoDel = Str ''week'' \<and> now - e > 7 * 24 * 3600000) \<or>
                 (autoDel = Str ''month'' \<and> now - e > 31 * 24 * 3600000)))"
proof -
  obtain r where r: "ev_repeat event = Str r" "r \<in> set [''never'', ''day'', ''week'', ''month'']"
    using valid_repeat [OF assms] by blast
  have se: "strict_eq autoDel (Str s) \<longleftrightarrow> autoDel = Str s" for s
    by (cases autoDel) (auto simp: strict_eq_def split: option.splits)
  show ?thesis
  proof (cases "r = ''never''")
    case True
    then show ?thesis
      using r
      by (cases "new_Date H (ev_end event)")
         (auto simp: deleteFilter_def Let_def truthy_def loose_eq_str_def se js_gt_dates
            int_gt_def num_sub_def HOUR_MS_def)
  next
    case False
    then show ?thesis
      using r by (auto simp: deleteFilter_def truthy_def loose_eq_str_def)
  qed
qed

text \<open>
  Under \<open>day\<close>, an event that ended at time 0 is kept at 24 hours and purged one
  millisecond later; the same event repeating daily is kept, and so is the event under
  \<open>never\<close>.
\<close>

theorem deleteFilter_iff_witness:
  "checkEventFields host0 (Some (sample_event (Str ''a'') ''Tea'' 0 0 ''never'')) = Inr True \<and>
   \<not> deleteFilter host0 86400000 (sample_event (Str ''a'') ''Tea'' 0 0 ''never'') (Str ''day'') \<and>
   deleteFilter host0 86400001 (sample_event (Str ''a'') ''Tea'' 0 0 ''never'') (Str ''day'') \<and>
   \<not> deleteFilter host0 86400001 (sample_event (Str ''a'') ''Tea'' 0 0 ''day'') (Str ''day'') \<and>
   \<not> deleteFilter host0 86400001 (sample_event (Str ''a'') ''Tea'' 0 0 ''never'') (Str ''never'')"
proof -
  have v: "checkEventFields host0 (Some (sample_event (Str ''a'') ''Tea'' 0 0 ''never'')) = Inr True"
    by (rule sample_event_valid) simp
  have w: "checkEventFields host0 (Some (sample_event (Str ''a'') ''Tea'' 0 0 ''day'')) = Inr True"
    by (rule sample_event_valid) simp
  show ?thesis
    using v deleteFilter_iff [OF v, of 86400000 "Str ''day''"]
      deleteFilter_iff [OF v, of 86400001 "Str ''day''"]
      deleteFilter_iff [OF w, of 86400001 "Str ''day''"]
      deleteFilter_iff [OF v, of 86400001 "Str ''never''"]
    by (simp add: sample_event_def new_Date_def ToNumber_def)
qed

text \<open>
  On a collection of valid events the retention sweep keeps exactly the events that the
  filter does not mark.
\<close>

lemma autoDelete_loop_valid:
  assumes "\<forall>ev \<in> set evs. checkEventFields H (Some ev) = Inr True"
  shows "autoDelete_loop H now autoDel evs kept =
           Inr (kept @ filter (\<lambda>ev. \<not> deleteFilter H now ev autoDel) evs)"
  using assms by (induction evs arbitrary: kept) auto

section \<open>Properties of the recurrence\<close>

text \<open>
  C6 as stated fails for the years 0 to 99, which \<open>new Date(year, month, date)\<close> reads as
  1900 to 1999. For the occurrence that starts on 31 January of the year 50 at 10:00 UTC
  the step is 59960527200000 milliseconds, and the start plus the step lies in the year
  1950, not in the February that follows the start.
\<close>

theorem month_step_in_year_50:
  "getFullYear host0 (Some (- 60586668000000)) = Some 50 \<and>
   getMonth host0 (Some (- 60586668000000)) = Some 0 \<and>
   getDate host0 (Some (- 60586668000000)) = Some 31 \<and>
   getMsToSameDateInNextMonth host0
     (sample_event (Str ''a'') ''Tea'' (- 60586668000000) (- 60586664400000) ''month'')
     = Some 59960527200000 \<and>
   getFullYear host0 (Some (- 60586668000000 + 59960527200000)) = Some 1950"
proof -
  have day: "Day (- 60586668000000) = DayFromYear 50 + 30"
    by (simp add: Day_def msPerDay_def DayFromYear_def)
  have c: "YearFromTime (- 60586668000000) = 50" "DayWithinYear (- 60586668000000) = 30"
      "InLeapYear (- 60586668000000) = 0"
    using day_in_year [OF _ _ day] by (simp_all add: DaysInYear_def)
  have y: "getFullYear host0 (Some (- 60586668000000)) = Some 50"
    by (simp add: getFullYear_def host0_time c)
  have m: "getMonth host0 (Some (- 60586668000000)) = Some 0"
    by (simp add: getMonth_def host0_time MonthFromTime_def c monthStart_def)
  have d: "getDate host0 (Some (- 60586668000000)) = Some 31"
    by (simp add: getDate_def host0_time DateFromTime_def MonthFromTime_def c monthStart_def)
  have feb: "MakeDate (DayFromYear 1950 + 58 + (if DaysInYear 1950 = 366 then 1 else 0)) 0
               = - 626140800000"
    by (simp add: MakeDate_def msPerDay_def DayFromYear_def DaysInYear_def)
  have f: "YearFromTime (- 626140800000) = 1950" "MonthFromTime (- 626140800000) = 1"
      "DateFromTime (- 626140800000) = 28"
    using last_day_of_February [of "- 626140800000" 1950] feb by (simp_all add: DaysInYear_def)
  have days: "Date_ymd host0 (Some 50) (Some 2) (Some 0) = Some (- 626140800000)"
    by (simp add: Date_ymd_def host0_time MakeDay_def monthStart_def MakeTime_def MakeDate_def
          msPerDay_def DayFromYear_def DaysInYear_def)
  have nxt: "Date_ymd host0 (Some 50) (Some 1) (Some 28) = Some (- 626140800000)"
    by (simp add: Date_ymd_def host0_time MakeDay_def monthStart_def MakeTime_def MakeDate_def
          msPerDay_def DayFromYear_def DaysInYear_def)
  have dim: "getDate host0 (Some (- 626140800000)) = Some 28"
    by (simp add: getDate_def host0_time f)
  have step: "getMsToSameDateInNextMonth host0
                (sample_event (Str ''a'') ''Tea'' (- 60586668000000) (- 60586664400000) ''month'')
                = Some 59960527200000"
    by (simp add: getMsToSameDateInNextMonth_def sample_event_def new_Date_def ToNumber_def
          Let_def y m d num_add_def int_gt_def days dim num_min_def nxt num_sub_def)
  have land: "getFullYear host0 (Some (- 60586668000000 + 59960527200000)) = Some 1950"
    by (simp add: getFullYear_def host0_time f)
  show ?thesis using y m d step land by simp
qed

text \<open>
  C6, amended. When the start of an occurrence falls on January 31 of a year that is not
  one of the years 0 to 99, the monthly step \<open>#getMsToSameDateInNextMonth\<close> returns a
  number of milliseconds that, added to the start, lands in February of the same year on
  the 29th in a leap year and on the 28th otherwise: the same day of the month in the
  following month, clamped to the last day of that month.
\<close>

theorem month_step_from_January_31:
  assumes s: "new_Date H (ev_start event) = Some s"
      and m: "getMonth H (Some s) = Some 0"
      and d: "getDate H (Some s) = Some 31"
      and y: "getFullYear H (Some s) = Some y"
      and range: "y < 0 \<or> 99 < y"
  shows "\<exists>diffInMs. getMsToSameDateInNextMonth H event = Some diffInMs \<and>
           getFullYear H (Some (s + diffInMs)) = Some y \<and>
           getMonth H (Some (s + diffInMs)) = Some 1 \<and>
           getDate H (Some (s + diffInMs)) = Some (if DaysInYear y = 366 then 29 else 28)"
proof -
  define l :: int where "l = (if DaysInYear y = 366 then 1 else 0)"
  define feb where "feb = MakeDate (DayFromYear y + 58 + l) 0"
  have feb: "YearFromTime feb = y" "MonthFromTime feb = 1" "DateFromTime feb = 28 + l"
    using last_day_of_February [of feb y] by (simp_all add: l_def feb_def)
  have l: "l = 0 \<or> l = 1" by (simp add: l_def)
  have yr: "(if 0 \<le> y \<and> y \<le> 99 then 1900 + y else y) = y" using range by auto
  have days: "Date_ymd H (Some y) (Some 2) (Some 0) = Some (UTC H feb)"
    by (simp add: Date_ymd_def yr MakeDay_def monthStart_def MakeTime_def feb_def l_def Let_def
          add.commute)
  have dim: "getDate H (Date_ymd H (Some y) (Some 2) (Some 0)) = Some (28 + l)"
    by (simp add: days getDate_def Local_UTC feb)
  have nextDay: "num_min (Some 31) (Some (28 + l)) = Some (28 + l)"
    using l by (auto simp: num_min_def)
  have nxt: "Date_ymd H (Some y) (Some 1) (Some (28 + l)) = Some (UTC H feb)"
    by (simp add: Date_ymd_def yr MakeDay_def monthStart_def MakeTime_def feb_def l_def Let_def
          add.commute)
  have step: "getMsToSameDateInNextMonth H event = Some (UTC H feb - s)"
    using m d y
    by (simp add: getMsToSameDateInNextMonth_def s Let_def num_add_def int_gt_def dim nextDay
          nxt num_sub_def)
  have land: "s + (UTC H feb - s) = UTC H feb" by simp
  show ?thesis
    apply (rule exI [of _ "UTC H feb - s"])
    using l by (auto simp: step land getFullYear_def getMonth_def getDate_def Local_UTC feb l_def)
qed

text \<open>An event that starts on 31 January 2026 at 10:00 UTC: the step lands on 28 February 2026.\<close>

theorem month_step_from_January_31_witness:
  "\<exists>diffInMs.
      getMsToSameDateInNextMonth host0
        (sample_event (Str ''a'') ''Tea'' 1769853600000 1769857200000 ''month'') = Some diffInMs \<and>
      getFullYear host0 (Some (1769853600000 + diffInMs)) = Some 2026 \<and>
      getMonth host0 (Some (1769853600000 + diffInMs)) = Some 1 \<and>
      getDate host0 (Some (1769853600000 + diffInMs)) = Some 28"
proof -
  have day: "Day 1769853600000 = DayFromYear 2026 + 30"
    by (simp add: Day_def msPerDay_def DayFromYear_def)
  note c = civil_2026 [OF _ _ day, simplified]
  have s: "new_Date host0 (ev_start (sample_event (Str ''a'') ''Tea'' 1769853600000 1769857200000 ''month''))
             = Some 1769853600000"
    by (simp add: sample_event_def new_Date_def ToNumber_def)
  have m: "getMonth host0 (Some 1769853600000) = Some 0"
    by (simp add: getMonth_def host0_time MonthFromTime_def c monthStart_def)
  have d: "getDate host0 (Some 1769853600000) = Some 31"
    by (simp add: getDate_def host0_time DateFromTime_def MonthFromTime_def c monthStart_def)
  have y: "getFullYear host0 (Some 1769853600000) = Some 2026"
    by (simp add: getFullYear_def host0_time c)
  show ?thesis
    using month_step_from_January_31 [OF s m d y] by (simp add: DaysInYear_def)
qed

subsection \<open>A date plus a number is a string\<close>

lemma dropWhile_snoc_keep: "\<not> P c \<Longrightarrow> \<exists>ys. dropWhile P (xs @ [c]) = ys @ [c]"
  by (induction xs) auto

lemma trim_Cons:
  assumes "\<not> is_ws c"
  shows "\<exists>zs. trim (c # cs) = c # zs"
proof -
  obtain ys where "dropWhile is_ws (rev cs @ [c]) = ys @ [c]"
    using dropWhile_snoc_keep [of is_ws c "rev cs"] assms by blast
  then show ?thesis using assms by (simp add: trim_def)
qed

lemma StringToNumber_letter:
  assumes "c \<in> set ''SMTWFI''"
  shows "StringToNumber (c # cs) = None"
proof -
  have ws: "\<not> is_ws c" using assms by (auto simp: is_ws_def)
  obtain zs where t: "trim (c # cs) = c # zs" using trim_Cons [OF ws] by blast
  have dv: "digit_value c = None" using assms by (auto simp: digit_value_def)
  have sg: "c \<noteq> CHR ''-''" "c \<noteq> CHR ''+''" using assms by auto
  show ?thesis by (simp add: StringToNumber_def t sg unsigned_value_def dv)
qed

lemma weekdayName_first: "\<exists>c r. weekdayName (WeekDay t) = c # r \<and> c \<in> set ''SMTWFI''"
proof -
  have "0 \<le> WeekDay t \<and> WeekDay t < 7" by (simp add: WeekDay_def)
  then have "WeekDay t \<in> {0, 1, 2, 3, 4, 5, 6}" by auto
  then show ?thesis by (auto simp: weekdayName_def)
qed

text \<open>The string of a date begins with the letter of a week day, or with the I of \<open>Invalid Date\<close>.\<close>

lemma Date_toString_first: "\<exists>c r. Date_toString H tv = c # r \<and> c \<in> set ''SMTWFI''"
proof (cases tv)
  case None
  then show ?thesis by (simp add: Date_toString_def)
next
  case (Some u)
  obtain c r where "weekdayName (WeekDay (LocalTime H u)) = c # r" "c \<in> set ''SMTWFI''"
    using weekdayName_first by blast
  then show ?thesis using Some by (simp add: Date_toString_def Let_def)
qed

lemma date_plus_number:
  "\<exists>c r. js_add H (DateObj tv) (Num n) = Str (c # r) \<and> c \<in> set ''SMTWFI''"
proof -
  obtain c r where "Date_toString H tv = c # r" "c \<in> set ''SMTWFI''"
    using Date_toString_first by blast
  then show ?thesis by (simp add: js_add_def is_Str_def ToString_def)
qed

text \<open>Such a string is not a numeral, so it is never \<open><=\<close> a date.\<close>

lemma date_string_not_le:
  assumes "c \<in> set ''SMTWFI''"
  shows "js_le (Str (c # r)) (DateObj p) = False"
  using StringToNumber_letter [OF assms, of r]
  by (simp add: js_le_def IsLessThan_def ToNumber_def split: option.splits)

text \<open>
  Hence the loop of \<open>#repeateRule\<close> ends at its first test, for every event and every
  window, and the expansion appends nothing.
\<close>

lemma repeateRule_appends_nothing: "repeateRule H event per listToAdd = Some listToAdd"
proof (cases "strict_eq (ev_repeat event) (Str ''never'')")
  case True
  then show ?thesis by (simp add: repeateRule_def)
next
  case False
  obtain c r where s:
      "js_add H (DateObj (new_Date H (ev_start event))) (Num (getRepeatTimeMs H event)) = Str (c # r)"
      "c \<in> set ''SMTWFI''"
    using date_plus_number by blast
  have "repeat_loop H event per ms re acc = Some acc" if "ev_start re = Str (c # r)" for ms re acc
    using date_string_not_le [OF s(2)] that by (subst repeat_loop.simps) simp
  then show ?thesis
    using False by (simp add: repeateRule_def Let_def s(1))
qed

text \<open>At the epoch, in UTC: the date 0 plus the number of milliseconds of a day.\<close>

lemma first_candidate_at_epoch:
  "js_add host0 (DateObj (Some 0)) (Num (Some 86400000))
     = Str ''Thu Jan 01 1970 00:00:00 GMT+000086400000''"
proof -
  have day: "Day 0 = DayFromYear 1970 + 0" by (simp add: Day_def msPerDay_def DayFromYear_def)
  have c: "YearFromTime 0 = 1970" "DayWithinYear 0 = 0" "InLeapYear 0 = 0"
    using day_in_year [OF _ _ day] by (simp_all add: DaysInYear_def)
  have m: "MonthFromTime 0 = 0" by (simp add: MonthFromTime_def c monthStart_def)
  have d: "DateFromTime 0 = 1" by (simp add: DateFromTime_def m c monthStart_def)
  have w: "WeekDay 0 = 4" by (simp add: WeekDay_def Day_def msPerDay_def)
  have p: "pad 2 0 = ''00''" "pad 2 (Suc 0) = ''01''" "pad 4 1970 = ''1970''"
    by (simp_all add: pad_def digit_char_def)
  have dg: "digit_char 8 = CHR ''8''" "digit_char 6 = CHR ''6''" "digit_char 4 = CHR ''4''"
      "digit_char 0 = CHR ''0''"
    by (simp_all add: digit_char_def)
  have n: "dec 86400000 = ''86400000''"
    by (simp add: dg)
  have tz: "tza host0 = 0" "tzName host0 = []" by (simp_all add: host0_def)
  have s: "Date_toString host0 (Some 0) = ''Thu Jan 01 1970 00:00:00 GMT+0000''"
    by (simp add: Date_toString_def host0_time Let_def c m d w p weekdayName_def monthName_def
          HourFromTime_def MinFromTime_def SecFromTime_def tz)
  show ?thesis
    by (simp add: js_add_def is_Str_def ToString_def s Number_toString_def n dg)
qed

text \<open>
  C1 (the code departs from it). The claim: for a stored event with repeat \<open>day\<close> or
  \<open>week\<close> and a bounded window, \<open>#repeateRule\<close> appends the occurrences one step, two steps,
  ... after the original, up to the first whose start exceeds the end of the window, each
  with repeat \<open>never\<close> and \<open>checkRepeat\<close> equal to the original rule. The code computes the
  first candidate's start as \<open>new Date(event.start) + repeatMs\<close>, which is a string, and the
  loop test compares that string with a date, which is false. For the daily event that
  starts at time 0 and the window that ends three days later, the step is 24 hours, the
  start of the first candidate is the string shown, the number it was meant to be (start
  plus step) lies inside the window, and nothing is appended.
\<close>

theorem repeateRule_daily_appends_nothing:
  "getRepeatTimeMs host0 (sample_event (Str ''a'') ''Tea'' 0 3600000 ''day'') = Some 86400000 \<and>
   js_add host0 (DateObj (new_Date host0 (ev_start (sample_event (Str ''a'') ''Tea'' 0 3600000 ''day''))))
                (Num (Some 86400000))
     = Str ''Thu Jan 01 1970 00:00:00 GMT+000086400000'' \<and>
   int_le (num_add (new_Date host0 (ev_start (sample_event (Str ''a'') ''Tea'' 0 3600000 ''day'')))
                   (Some 86400000))
          (new_Date host0 (DateObj (Some 259200000))) \<and>
   repeateRule host0 (sample_event (Str ''a'') ''Tea'' 0 3600000 ''day'')
     \<lparr>p_start = DateObj (Some 0), p_end = DateObj (Some 259200000)\<rparr> [] = Some []"
  using first_candidate_at_epoch
  by (simp add: repeateRule_appends_nothing getRepeatTimeMs_def sample_event_def loose_eq_str_def
        HOUR_MS_def new_Date_def ToNumber_def num_add_def)

section \<open>Properties of the display angles\<close>

text \<open>
  C3 (the code departs from it). The claim: in the actual-events view the start angle of
  an event that started more than 2 hours ago is the angle of now minus 2 hours, and the end
  angle of an event that ends more than 10 hours from now is the angle of now plus 10
  hours, each clamp applying whenever its own condition holds, also when both hold. In
  \<open>#calculateEventAngles\<close> the second clamp is the \<open>else if\<close> of the first, and it calls
  \<open>EventsManager.convertTimeToAngle\<close>, a name that is not bound. At noon (UTC), for the
  event from 09:00 to 23:00 both conditions hold; the start angle is clamped to that of
  10:00, 300 degrees, but the end angle stays that of 23:00, 330 degrees, where the angle of
  now plus 10 hours is 300 degrees. For the event from 12:00 to 23:00 only the second
  condition holds, and the call throws.
\<close>

theorem calculateEventAngles_end_not_clamped:
  "int_lt (new_Date host0 (Num (Some 118800000))) (Some (129600000 - 2 * HOUR_MS)) \<and>
   int_gt (new_Date host0 (Num (Some 169200000))) (Some (129600000 + 10 * HOUR_MS)) \<and>
   EventService_convertTimeToAngle host0 (Num (Some (129600000 + 10 * HOUR_MS))) = Some 300 \<and>
   calculateEventAngles host0 (sample_event (Str ''a'') ''Tea'' 118800000 169200000 ''never'')
       129600000
     = Inr \<lparr>startAngle = Some 300, endAngle = Some 330\<rparr> \<and>
   calculateEventAngles host0 (sample_event (Str ''a'') ''Tea'' 129600000 169200000 ''never'')
       129600000
     = Inl (ReferenceError ''EventsManager'')"
  by (simp add: calculateEventAngles_def EventService_convertTimeToAngle_def new_Date_def
        ToNumber_def getHours_def getMinutes_def host0_time HourFromTime_def MinFromTime_def
        js_rem_def Let_def sample_event_def js_lt_dates num_sub_def HOUR_MS_def num_gt_def
        int_gt_def)

section \<open>Properties of the service operations\<close>

text \<open>Rebuilding the list of actual events always returns, and leaves the stored collection alone.\<close>

lemma upload_loop_total: "\<exists>err acc. upload_loop H now per evs actual = Some (err, acc)"
proof (induction evs arbitrary: actual)
  case Nil
  then show ?case by simp
next
  case (Cons ev rest)
  show ?case
  proof (cases "checkEventFields H (Some ev)")
    case (Inl e)
    then show ?thesis by (simp add: repeateRule_appends_nothing)
  next
    case (Inr ok)
    show ?thesis
    proof (cases "ok \<and> actualEventsFilter H now ev")
      case True
      then show ?thesis
        using Inr Cons.IH
        by (cases "addAnglesToEvent H now ev") (auto simp: repeateRule_appends_nothing)
    next
      case False
      then show ?thesis using Inr Cons.IH by (auto simp: repeateRule_appends_nothing)
    qed
  qed
qed

lemma uploadActualEvents_total:
  "\<exists>err st'. uploadActualEvents H now st = Some (err, st') \<and>
      events_file st' = events_file st \<and> drawn st' = drawn st \<and>
      settings_file st' = settings_file st"
proof -
  obtain err acc where
    "upload_loop H now
       \<lparr>p_start = DateObj (new_Date H (Num (Some (now - 2 * HOUR_MS)))),
          p_end = DateObj (new_Date H (Num (Some (now + 10 * HOUR_MS))))\<rparr>
       (events_file st) [] = Some (err, acc)"
    using upload_loop_total by blast
  then show ?thesis by (simp add: uploadActualEvents_def Let_def loadEvents_def)
qed

subsection \<open>Ids of created events\<close>

lemma strict_eq_sym: "strict_eq a b = strict_eq b a"
  by (cases a; cases b) (auto simp: strict_eq_def split: option.splits)

lemma id_taken_append: "id_taken (xs @ ys) i = (id_taken xs i \<or> id_taken ys i)"
  by (simp add: id_taken_def)

lemma unique_ids_snoc: "unique_ids (xs @ [e]) = (unique_ids xs \<and> \<not> id_taken xs (ev_id e))"
proof (induction xs)
  case Nil
  then show ?case by (simp add: id_taken_def)
next
  case (Cons x xs)
  have "id_taken [e] (ev_id x) = strict_eq (ev_id x) (ev_id e)"
    by (simp add: id_taken_def strict_eq_sym)
  moreover have "id_taken (x # xs) (ev_id e) = (strict_eq (ev_id x) (ev_id e) \<or> id_taken xs (ev_id e))"
    by (simp add: id_taken_def)
  ultimately show ?case using Cons by (auto simp: id_taken_append)
qed

text \<open>
  The id loop returns as soon as the generator yields an id that no loaded event has; an
  event whose own id is free is returned as it is.
\<close>

lemma generateEventId_finds:
  assumes "\<not> id_taken allEvents (Str (generatorId H (k + n)))"
  shows "\<exists>ev' k'. generateEventId H ev allEvents k = Some (ev', k') \<and>
           \<not> id_taken allEvents (ev_id ev') \<and>
           (if id_taken allEvents (ev_id ev)
            then \<exists>j. k \<le> j \<and> j \<le> k + n \<and> ev' = ev\<lparr>ev_id := Str (generatorId H j)\<rparr>
            else ev' = ev)"
  using assms
proof (induction n arbitrary: ev k)
  case 0
  show ?case
  proof (cases "id_taken allEvents (ev_id ev)")
    case True
    have "generateEventId H (ev\<lparr>ev_id := Str (generatorId H k)\<rparr>) allEvents (Suc k)
            = Some (ev\<lparr>ev_id := Str (generatorId H k)\<rparr>, Suc k)"
      using 0 by (subst generateEventId.simps) simp
    then show ?thesis using True 0 by (subst generateEventId.simps) auto
  next
    case False
    then show ?thesis by (subst generateEventId.simps) simp
  qed
next
  case (Suc n)
  show ?case
  proof (cases "id_taken allEvents (ev_id ev)")
    case True
    let ?ev1 = "ev\<lparr>ev_id := Str (generatorId H k)\<rparr>"
    have "\<not> id_taken allEvents (Str (generatorId H (Suc k + n)))" using Suc.prems by simp
    from Suc.IH [OF this, of ?ev1]
    obtain ev' k' where r: "generateEventId H ?ev1 allEvents (Suc k) = Some (ev', k')"
        "\<not> id_taken allEvents (ev_id ev')"
        "if id_taken allEvents (ev_id ?ev1)
         then \<exists>j. Suc k \<le> j \<and> j \<le> Suc k + n \<and> ev' = ?ev1\<lparr>ev_id := Str (generatorId H j)\<rparr>
         else ev' = ?ev1"
      by blast
    have "\<exists>j. k \<le> j \<and> j \<le> k + Suc n \<and> ev' = ev\<lparr>ev_id := Str (generatorId H j)\<rparr>"
    proof (cases "id_taken allEvents (ev_id ?ev1)")
      case True
      then obtain j where "Suc k \<le> j" "j \<le> Suc k + n"
          "ev' = ?ev1\<lparr>ev_id := Str (generatorId H j)\<rparr>"
        using r(3) by auto
      then show ?thesis by (intro exI [of _ j]) simp
    next
      case False
      then have "ev' = ?ev1" using r(3) by simp
      then show ?thesis by (intro exI [of _ k]) simp
    qed
    then show ?thesis using True r(1,2) by (subst generateEventId.simps) simp
  next
    case False
    then show ?thesis by (subst generateEventId.simps) simp
  qed
qed

text \<open>
  C5 as stated fails: \<open>createNewEvent\<close> does not always assign a service-generated id.
  Created into an empty collection, the event keeps the id \<open>mine\<close> that the caller
  supplied; no id is generated.
\<close>

theorem createNewEvent_keeps_caller_id:
  "createNewEvent host0 0 (Some (sample_event (Str ''mine'') ''Tea'' 86400000 90000000 ''never''))
     (sample_service [] ''never'')
   = Some (None,
       sample_service [sample_event (Str ''mine'') ''Tea'' 86400000 90000000 ''never''] ''never'')"
proof -
  let ?ev = "sample_event (Str ''mine'') ''Tea'' 86400000 90000000 ''never''"
  have v: "checkEventFields host0 (Some ?ev) = Inr True"
    by (rule sample_event_valid) simp
  have a: "\<not> actualEventsFilter host0 0 ?ev"
    by (simp add: actualEventsFilter_def sample_event_def new_Date_def ToNumber_def Let_def
          js_ge_dates js_le_dates int_ge_def num_sub_def HOUR_MS_def)
  have g: "generateEventId host0 ?ev [] 0 = Some (?ev, 0)"
    by (subst generateEventId.simps) (simp add: id_taken_def)
  show ?thesis
    by (simp add: createNewEvent_def v loadEvents_def sample_service_def g saveEvents_def
          uploadActualEvents_def Let_def repeateRule_appends_nothing
          a [unfolded sample_service_def])
qed

text \<open>
  C5, amended. For a new event that carries an id and passes the validation,
  \<open>createNewEvent\<close> keeps that id when no event of the loaded collection has it, and
  otherwise replaces it by generated ids until one is free. Provided the generator yields,
  at some later draw, an id that no loaded event has, the id loop ends and the collection
  is written with the new event at its end under an id that no loaded event has; the
  written collection has pairwise distinct ids exactly when the loaded one had them. What
  \<open>createNewEvent\<close> then reports is the outcome of the refresh \<open>#uploadActualEvents\<close> that
  follows the write on the written state: it completes, or it rethrows an error of the
  refresh with the collection already written. (What becomes of an event that carries no
  id is not part of this statement.)
\<close>

theorem createNewEvent_id:
  assumes valid: "checkEventFields H (Some ev) = Inr True"
      and carries: "has_id (ev_id ev)"
      and free: "\<not> id_taken (events_file st) (Str (generatorId H (drawn st + n)))"
  shows "\<exists>ev' k' err st'.
           createNewEvent H now (Some ev) st = Some (err, st') \<and>
           uploadActualEvents H now (saveEvents (events_file st @ [ev']) (st\<lparr>drawn := k'\<rparr>))
             = Some (err, st') \<and>
           events_file st' = events_file st @ [ev'] \<and>
           has_id (ev_id ev') \<and>
           \<not> id_taken (events_file st) (ev_id ev') \<and>
           (if id_taken (events_file st) (ev_id ev)
            then \<exists>j. drawn st \<le> j \<and> j \<le> drawn st + n \<and>
                     ev' = ev\<lparr>ev_id := Str (generatorId H j)\<rparr>
            else ev' = ev) \<and>
           unique_ids (events_file st') = unique_ids (events_file st)"
proof -
  obtain ev' k' where g: "generateEventId H ev (events_file st) (drawn st) = Some (ev', k')"
      "\<not> id_taken (events_file st) (ev_id ev')"
      "if id_taken (events_file st) (ev_id ev)
       then \<exists>j. drawn st \<le> j \<and> j \<le> drawn st + n \<and> ev' = ev\<lparr>ev_id := Str (generatorId H j)\<rparr>
       else ev' = ev"
    using generateEventId_finds [OF free, of ev] by blast
  obtain err st' where u:
      "uploadActualEvents H now (saveEvents (events_file st @ [ev']) (st\<lparr>drawn := k'\<rparr>)) = Some (err, st')"
      "events_file st' = events_file (saveEvents (events_file st @ [ev']) (st\<lparr>drawn := k'\<rparr>))"
    using uploadActualEvents_total by blast
  have c: "createNewEvent H now (Some ev) st = Some (err, st')"
    by (simp add: createNewEvent_def valid loadEvents_def g(1) u(1))
  have f: "events_file st' = events_file st @ [ev']" using u(2) by (simp add: saveEvents_def)
  have h: "has_id (ev_id ev')"
    using g(3) carries by (auto simp: has_id_def split: if_splits)
  show ?thesis
    apply (rule exI [of _ ev'], rule exI [of _ k'], rule exI [of _ err], rule exI [of _ st'])
    using c u(1) f h g(2) g(3) by (simp add: unique_ids_snoc)
qed

text \<open>
  A second event created with the id \<open>mine\<close> of a stored event is stored with the first
  generated id, \<open>id0\<close>, and the create completes without an error.
\<close>

theorem createNewEvent_id_witness:
  "\<exists>ev' st'.
      createNewEvent host0 0 (Some (sample_event (Str ''mine'') ''Coffee'' 86400000 90000000 ''never''))
        (sample_service [sample_event (Str ''mine'') ''Tea'' 86400000 90000000 ''never''] ''never'')
        = Some (None, st') \<and>
      events_file st' = [sample_event (Str ''mine'') ''Tea'' 86400000 90000000 ''never'', ev'] \<and>
      ev_id ev' = Str ''id0'' \<and> unique_ids (events_file st')"
proof -
  let ?old = "sample_event (Str ''mine'') ''Tea'' 86400000 90000000 ''never''"
  let ?new = "sample_event (Str ''mine'') ''Coffee'' 86400000 90000000 ''never''"
  let ?st = "sample_service [?old] ''never''"
  have v: "checkEventFields host0 (Some ?new) = Inr True"
    by (simp add: checkEventFields_def sample_event_def trim_def is_ws_def is_Date_def)
  have hid: "has_id (ev_id ?new)"
    by (simp add: sample_event_def has_id_def)
  have id0: "generatorId host0 0 = ''id0''"
    by (simp add: host0_def digit_char_def)
  have free: "\<not> id_taken (events_file ?st) (Str (generatorId host0 (drawn ?st + 0)))"
    by (simp add: sample_service_def id_taken_def sample_event_def id0 strict_eq_def)
  have taken: "id_taken (events_file ?st) (ev_id ?new)"
    by (simp add: sample_service_def id_taken_def sample_event_def strict_eq_def)
  have u: "unique_ids (events_file ?st)"
    by (simp add: sample_service_def id_taken_def)
  obtain ev' k' err st' where r: "createNewEvent host0 0 (Some ?new) ?st = Some (err, st')"
      "uploadActualEvents host0 0 (saveEvents (events_file ?st @ [ev']) (?st\<lparr>drawn := k'\<rparr>))
         = Some (err, st')"
      "events_file st' = events_file ?st @ [ev']"
      "if id_taken (events_file ?st) (ev_id ?new)
            then \<exists>j. drawn ?st \<le> j \<and> j \<le> drawn ?st + 0 \<and>
                     ev' = ?new\<lparr>ev_id := Str (generatorId host0 j)\<rparr>
            else ev' = ?new"
      "unique_ids (events_file st') = unique_ids (events_file ?st)"
    using createNewEvent_id [OF v hid free, of 0] by blast
  have d: "drawn ?st = 0" by (simp add: sample_service_def)
  have e: "ev' = ?new\<lparr>ev_id := Str (generatorId host0 0)\<rparr>"
    using r(4) taken d by auto
  then have i: "ev_id ev' = Str ''id0''" by (simp add: id0)
  have f: "events_file st' = [?old, ev']" using r(3) by (simp add: sample_service_def)
  have va: "checkEventFields host0 (Some x) = Inr True \<and> \<not> actualEventsFilter host0 0 x"
    if "x = ?old \<or> x = ev'" for x
    using that e
    by (auto simp: checkEventFields_def sample_event_def trim_def is_ws_def is_Date_def
          actualEventsFilter_def new_Date_def ToNumber_def Let_def js_ge_dates js_le_dates
          int_ge_def num_sub_def HOUR_MS_def)
  have "uploadActualEvents host0 0 (saveEvents (events_file ?st @ [ev']) (?st\<lparr>drawn := k'\<rparr>))
          = Some (None, (saveEvents (events_file ?st @ [ev']) (?st\<lparr>drawn := k'\<rparr>))\<lparr>actualEvents := []\<rparr>)"
    using va [of ?old] va [of ev']
    by (simp add: uploadActualEvents_def Let_def loadEvents_def saveEvents_def sample_service_def
          repeateRule_appends_nothing)
  then have n: "err = None" using r(2) by simp
  show ?thesis
    apply (rule exI [of _ ev'], rule exI [of _ st'])
    using r(1) n f i r(5) u by simp
qed

text \<open>
  An event that carries no id, created into an empty collection, is stored without an id,
  where the description of \<open>createNewEvent\<close> says that the event receives a unique id.
\<close>

lemma createNewEvent_without_id:
  "createNewEvent host0 0 (Some (sample_event Undefined ''Tea'' 86400000 90000000 ''never''))
     (sample_service [] ''never'')
   = Some (None,
       sample_service [sample_event Undefined ''Tea'' 86400000 90000000 ''never''] ''never'')"
proof -
  let ?ev = "sample_event Undefined ''Tea'' 86400000 90000000 ''never''"
  have v: "checkEventFields host0 (Some ?ev) = Inr True"
    by (rule sample_event_valid) simp
  have a: "\<not> actualEventsFilter host0 0 ?ev"
    by (simp add: actualEventsFilter_def sample_event_def new_Date_def ToNumber_def Let_def
          js_ge_dates js_le_dates int_ge_def num_sub_def HOUR_MS_def)
  have g: "generateEventId host0 ?ev [] 0 = Some (?ev, 0)"
    by (subst generateEventId.simps) (simp add: id_taken_def)
  show ?thesis
    by (simp add: createNewEvent_def v loadEvents_def sample_service_def g saveEvents_def
          uploadActualEvents_def Let_def repeateRule_appends_nothing
          a [unfolded sample_service_def])
qed

text \<open>
  The refresh after the write can throw: at noon, the created event from 12:00 to 23:00 is
  actual and ends more than 10 hours from now, so \<open>#calculateEventAngles\<close> throws; the
  collection has been written.
\<close>

lemma createNewEvent_throws_after_write:
  "createNewEvent host0 129600000
     (Some (sample_event (Str ''mine'') ''Tea'' 129600000 169200000 ''never''))
     (sample_service [] ''never'')
   = Some (Some (ReferenceError ''EventsManager''),
       sample_service [sample_event (Str ''mine'') ''Tea'' 129600000 169200000 ''never''] ''never'')"
proof -
  let ?ev = "sample_event (Str ''mine'') ''Tea'' 129600000 169200000 ''never''"
  have v: "checkEventFields host0 (Some ?ev) = Inr True"
    by (rule sample_event_valid) simp
  have a: "actualEventsFilter host0 129600000 ?ev"
    by (simp add: actualEventsFilter_def sample_event_def new_Date_def ToNumber_def Let_def
          js_ge_dates js_le_dates int_ge_def num_sub_def HOUR_MS_def)
  have t: "addAnglesToEvent host0 129600000 ?ev = Inl (ReferenceError ''EventsManager'')"
    by (simp add: addAnglesToEvent_def calculateEventAngles_def
          EventService_convertTimeToAngle_def new_Date_def ToNumber_def getHours_def
          getMinutes_def host0_time HourFromTime_def MinFromTime_def js_rem_def Let_def
          sample_event_def js_lt_dates num_sub_def HOUR_MS_def num_gt_def int_gt_def)
  have g: "generateEventId host0 ?ev [] 0 = Some (?ev, 0)"
    by (subst generateEventId.simps) (simp add: id_taken_def)
  show ?thesis
    by (simp add: createNewEvent_def v loadEvents_def sample_service_def g saveEvents_def
          uploadActualEvents_def Let_def repeateRule_appends_nothing
          a [unfolded sample_service_def] t [unfolded sample_service_def])
qed

subsection \<open>Editing\<close>

text \<open>
  The scan of \<open>editEvent\<close> ends at the first stored entry that fails the validation, with
  the error of that entry; nothing is written.
\<close>

lemma edit_loop_stops:
  assumes "\<forall>ev \<in> set pre. checkEventFields H (Some ev) = Inr True"
      and "checkEventFields H (Some bad) = Inl e"
  shows "edit_loop H event (pre @ bad # rest) result = Inl e"
  using assms by (induction pre arbitrary: result) auto

lemma editEvent_stops:
  assumes "events_file st = pre @ bad # rest"
      and "\<forall>ev \<in> set pre. checkEventFields H (Some ev) = Inr True"
      and "checkEventFields H (Some bad) = Inl e"
  shows "editEvent H now event st = Some (Some e, st)"
  using edit_loop_stops [OF assms(2,3)] assms(1) by (simp add: editEvent_def loadEvents_def)

text \<open>
  C4 (the code departs from it). The claim: while \<open>editEvent\<close> scans the loaded collection,
  an entry that fails the validation counts as not matching and is passed through, and the
  edit still persists the collection with the matching entry replaced. \<open>#checkEventFields\<close>
  never returns false: it throws on an invalid entry, and \<open>editEvent\<close> rethrows. With a
  stored entry whose description is empty before the entry \<open>a\<close>, editing \<open>a\<close> ends with the
  validation error and the stored collection is what it was.
\<close>

theorem editEvent_aborts_on_invalid_entry:
  "checkEventFields host0 (Some (sample_event (Str ''b'') '''' 0 3600000 ''never''))
     = Inl InvalidDescription \<and>
   editEvent host0 0 (sample_event (Str ''a'') ''Coffee'' 0 3600000 ''never'')
     (sample_service [sample_event (Str ''b'') '''' 0 3600000 ''never'',
                      sample_event (Str ''a'') ''Tea'' 0 3600000 ''never''] ''never'')
   = Some (Some InvalidDescription,
           sample_service [sample_event (Str ''b'') '''' 0 3600000 ''never'',
                           sample_event (Str ''a'') ''Tea'' 0 3600000 ''never''] ''never'')"
  by (simp add: editEvent_def loadEvents_def sample_service_def checkEventFields_def
        sample_event_def trim_def)

subsection \<open>The list of a week\<close>

text \<open>
  For a non-repeating event the loop tests the start of the window only: the end of the
  window does not occur in what decides the inclusion.
\<close>

lemma week_loop_non_repeating:
  assumes "ev_repeat ev = Str ''never''"
  shows "week_loop H week (ev # rest) resultList =
           week_loop H week rest
             (if js_ge (DateObj (new_Date H (ev_start ev))) (p_start week)
              then resultList @ [Event (ev\<lparr>ev_checkRepeat := Str ''never''\<rparr>)]
              else resultList)"
  using assms by (simp add: Let_def loose_eq_str_def truthy_def)

text \<open>
  The week of Wednesday, 4 November 2026, 15:30:45.500 UTC runs from Monday the 2nd to
  Monday the 9th.
\<close>

lemma week_of_reference_date:
  "getWeekRange host0 (Num (Some 1793806245500)) =
     \<lparr>p_start = DateObj (Some 1793577600000), p_end = DateObj (Some 1794182400000)\<rparr>"
proof -
  have ref_day: "Day 1793806245500 = DayFromYear 2026 + 307"
    by (simp add: Day_def msPerDay_def DayFromYear_def)
  have mon_day: "Day 1793577600000 = DayFromYear 2026 + 305"
    by (simp add: Day_def msPerDay_def DayFromYear_def)
  note ref_civil = civil_2026 [OF _ _ ref_day, simplified]
  note mon_civil = civil_2026 [OF _ _ mon_day, simplified]
  have day: "getDay host0 (Some 1793806245500) = Some 3"
    by (simp add: getDay_def host0_time WeekDay_def Day_def msPerDay_def)
  have date: "getDate host0 (Some 1793806245500) = Some 4"
    by (simp add: getDate_def host0_time DateFromTime_def MonthFromTime_def ref_civil monthStart_def)
  have monday0: "setDate host0 (Some 1793806245500) (Some 2) = Some 1793633445500"
    by (simp add: setDate_def host0_time MonthFromTime_def ref_civil monthStart_def MakeDay_def
          MakeDate_def TimeWithinDay_def msPerDay_def DayFromYear_def DaysInYear_def)
  have zero: "setMilliseconds host0 (setSeconds host0 (setMinutes host0
                (setHours host0 (Some 1793633445500) 0) 0) 0) 0 = Some 1793577600000"
    by (simp add: setHours_def setMinutes_def setSeconds_def setMilliseconds_def host0_time
          MakeDate_def MakeTime_def Day_def msPerDay_def HourFromTime_def MinFromTime_def
          SecFromTime_def msFromTime_def)
  have date_mon: "getDate host0 (Some 1793577600000) = Some 2"
    by (simp add: getDate_def host0_time DateFromTime_def MonthFromTime_def mon_civil monthStart_def)
  have sunday: "setDate host0 (Some 1793577600000) (Some 9) = Some 1794182400000"
    by (simp add: setDate_def host0_time MonthFromTime_def mon_civil monthStart_def MakeDay_def
          MakeDate_def TimeWithinDay_def msPerDay_def DayFromYear_def DaysInYear_def)
  show ?thesis
    by (simp add: getWeekRange_def Let_def new_Date_def ToNumber_def day date num_sub_def
          num_add_def monday0 zero date_mon sunday)
qed

text \<open>
  C2 (the code departs from it). The claim: a stored non-repeating valid event is in the
  result of \<open>getWeekListOfEvents\<close> exactly when its start lies in the window from Monday
  00:00 of the week of the reference date to the following Monday 00:00. The second operand
  of the test is \<open>new Date(ev.start <= week.end)\<close>, an object and therefore true, so the end
  of the window is never checked. For the reference date Wednesday, 4 November 2026 the
  window ends on Monday, 9 November 00:00 UTC; the valid, non-repeating event that starts
  on 25 December 2026 at 10:00 UTC is after it, and is in the list.
\<close>

theorem getWeekListOfEvents_includes_later_event:
  "getWeekRange host0 (Num (Some 1793806245500)) =
     \<lparr>p_start = DateObj (Some 1793577600000), p_end = DateObj (Some 1794182400000)\<rparr> \<and>
   checkEventFields host0
     (Some (sample_event (Str ''a'') ''Tea'' 1798192800000 1798196400000 ''never'')) = Inr True \<and>
   js_gt (DateObj (new_Date host0
            (ev_start (sample_event (Str ''a'') ''Tea'' 1798192800000 1798196400000 ''never''))))
         (DateObj (Some 1794182400000)) \<and>
   getWeekListOfEvents host0 1793806245500 (Num (Some 1793806245500))
     (sample_service [sample_event (Str ''a'') ''Tea'' 1798192800000 1798196400000 ''never'']
        ''never'')
   = Some (Inr [(sample_event (Str ''a'') ''Tea'' 1798192800000 1798196400000 ''never'')
                  \<lparr>ev_checkRepeat := Str ''never''\<rparr>],
           sample_service [sample_event (Str ''a'') ''Tea'' 1798192800000 1798196400000 ''never'']
             ''never'')"
proof -
  let ?ev = "sample_event (Str ''a'') ''Tea'' 1798192800000 1798196400000 ''never''"
  let ?st = "sample_service [?ev] ''never''"
  have v: "checkEventFields host0 (Some ?ev) = Inr True"
    by (rule sample_event_valid) simp
  have keep: "\<not> deleteFilter host0 1793806245500 ?ev (Str ''never'')"
    by (simp add: deleteFilter_def sample_event_def truthy_def loose_eq_str_def strict_eq_def)
  have sweep: "autoDeleteEvents host0 1793806245500 ?st = (None, ?st)"
    by (simp add: autoDeleteEvents_def loadSettings_def sample_service_def validateSettings_def
          is_Str_def loadEvents_def saveEvents_def v [unfolded sample_service_def]
          keep [unfolded sample_service_def])
  have later: "js_gt (DateObj (new_Date host0 (ev_start ?ev))) (DateObj (Some 1794182400000))"
    by (simp add: js_gt_dates int_gt_def sample_event_def new_Date_def ToNumber_def)
  have loop: "week_loop host0
                \<lparr>p_start = DateObj (Some 1793577600000), p_end = DateObj (Some 1794182400000)\<rparr>
                [?ev] [] = Some [?ev\<lparr>ev_checkRepeat := Str ''never''\<rparr>]"
    by (simp add: Let_def sample_event_def loose_eq_str_def js_ge_dates int_ge_def new_Date_def
          ToNumber_def truthy_def Event_def)
  have ld: "loadEvents ?st = [?ev]"
    by (simp add: loadEvents_def sample_service_def)
  have list: "getWeekListOfEvents host0 1793806245500 (Num (Some 1793806245500)) ?st
                = Some (Inr [?ev\<lparr>ev_checkRepeat := Str ''never''\<rparr>], ?st)"
    by (simp add: getWeekListOfEvents_def sweep week_of_reference_date Let_def ld loop
          sort_events_def del: week_loop.simps)
  show ?thesis using week_of_reference_date v later list by simp
qed

end
